theory Spec2Isabelle
  imports Complex_Main "HOL-Library.AList" "HOL-Library.Sublist"
begin

section \<open>Python values\<close>

text \<open>
  The session fields and the bodies of the remote answers are JSON documents that the
  program handles as Python dictionaries. A dictionary is an association list in insertion
  order: \<open>map_of\<close> reads a key and \<open>AList.update\<close> writes one (in place when the key is there,
  at the end otherwise, as a Python \<open>dict\<close> does). Python floats are modelled as reals.
\<close>

datatype json =
    JNull
  | JBool bool
  | JInt int
  | JFloat real
  | JStr string
  | JArr "json list"
  | JObj "(string \<times> json) list"

type_synonym pydict = "(string \<times> json) list"

text \<open>Truth value testing of Python (\<open>not x\<close>, \<open>x or y\<close>, \<open>if x\<close>).\<close>

fun truthy :: "json \<Rightarrow> bool" where
  "truthy JNull = False"
| "truthy (JBool b) = b"
| "truthy (JInt i) = (i \<noteq> 0)"
| "truthy (JFloat r) = (r \<noteq> 0)"
| "truthy (JStr s) = (s \<noteq> [])"
| "truthy (JArr xs) = (xs \<noteq> [])"
| "truthy (JObj kvs) = (kvs \<noteq> [])"

section \<open>Exceptions and remote calls\<close>

text \<open>
  The answer of \<open>aiohttp.ClientSession.post\<close>: its status and its body. \<open>json_body\<close> is
  what \<open>response.json()\<close> returns, \<open>None\<close> when it raises (the body is not JSON).
\<close>

record response =
  status :: int
  json_body :: "json option"

text \<open>
  Modelled from the spec: \<open>exceptions.HTTPException\<close> of \<open>utilities.exceptions\<close>, an error
  that carries the response and a message. Every raise is a value; the other errors are
  raised by Python or by the libraries.
\<close>

datatype exn =
    HTTPException response json
  | KeyError string
  | ValueError
  | TypeError
  | AttributeError
  | ContentTypeError
  | ClientError string

text \<open>
  The outbound calls, in the order they are made: the POST of \<open>get_token\<close> (url, form data,
  headers), a request of \<open>http.HTTPClient\<close> (method, path, access token) and a request on the
  IPC channel (endpoint, \<open>user_id\<close>).
\<close>

datatype call =
    Post string "(string \<times> string) list" "(string \<times> string) list"
  | Request string string string
  | IpcRequest string int

fun is_Request :: "call \<Rightarrow> bool" where
  "is_Request (Request m p t) = True"
| "is_Request c = False"

fun is_IpcRequest :: "call \<Rightarrow> bool" where
  "is_IpcRequest (IpcRequest e u) = True"
| "is_IpcRequest c = False"

section \<open>Builtins\<close>

text \<open>\<open>d[k]\<close>: the value, or \<open>KeyError\<close>.\<close>

definition getitem :: "pydict \<Rightarrow> string \<Rightarrow> exn + json" where
  "getitem d k = (case map_of d k of None \<Rightarrow> Inl (KeyError k) | Some v \<Rightarrow> Inr v)"

text \<open>
  \<open>int(x)\<close> on a string of one-byte characters: the blanks around the number are dropped
  (tab to carriage return, the space, and the characters 133 and 160), one sign is allowed,
  and the digits may be separated by single underscores.
\<close>

definition is_space :: "char \<Rightarrow> bool" where
  "is_space c =
     (let n = (of_char c :: nat) in (9 \<le> n \<and> n \<le> 13) \<or> n = 32 \<or> n = 133 \<or> n = 160)"

definition is_digit :: "char \<Rightarrow> bool" where
  "is_digit c = (let n = (of_char c :: nat) in 48 \<le> n \<and> n \<le> 57)"

definition digit_val :: "char \<Rightarrow> nat" where
  "digit_val c = (of_char c :: nat) - 48"

fun parse_digits :: "nat \<Rightarrow> string \<Rightarrow> nat option" where
  "parse_digits acc [] = None"
| "parse_digits acc [c] = (if is_digit c then Some (10 * acc + digit_val c) else None)"
| "parse_digits acc (c # d # ds) =
     (if is_digit c
      then (if d = CHR ''_'' then parse_digits (10 * acc + digit_val c) ds
            else parse_digits (10 * acc + digit_val c) (d # ds))
      else None)"

definition strip :: "string \<Rightarrow> string" where
  "strip s = rev (dropWhile is_space (rev (dropWhile is_space s)))"

definition int_of_str :: "string \<Rightarrow> exn + int" where
  "int_of_str s =
     (case strip s of
        [] \<Rightarrow> Inl ValueError
      | c # cs \<Rightarrow>
          (if c = CHR ''-'' then
             (case parse_digits 0 cs of None \<Rightarrow> Inl ValueError | Some n \<Rightarrow> Inr (- int n))
           else if c = CHR ''+'' then
             (case parse_digits 0 cs of None \<Rightarrow> Inl ValueError | Some n \<Rightarrow> Inr (int n))
           else
             (case parse_digits 0 (c # cs) of None \<Rightarrow> Inl ValueError | Some n \<Rightarrow> Inr (int n))))"

text \<open>\<open>int(x)\<close>: a float is truncated towards zero, a container or \<open>None\<close> is a \<open>TypeError\<close>.\<close>

fun py_int :: "json \<Rightarrow> exn + int" where
  "py_int (JInt i) = Inr i"
| "py_int (JBool b) = Inr (if b then 1 else 0)"
| "py_int (JFloat r) = Inr (if 0 \<le> r then \<lfloor>r\<rfloor> else \<lceil>r\<rceil>)"
| "py_int (JStr s) = int_of_str s"
| "py_int v = Inl TypeError"

section \<open>The classes of \<open>utilities.objects\<close>\<close>

text \<open>
  Modelled from the spec: the classes \<open>Token\<close>, \<open>User\<close> and \<open>Guild\<close> of \<open>utilities.objects\<close>,
  which the program imports. Each is a view derived from one dictionary of the session:
  the constructor reads the attributes the spec lists and raises \<open>KeyError\<close> when the
  dictionary lacks one, \<open>TypeError\<close> when a string or a number is expected and something
  else is there.
\<close>

fun as_number :: "json \<Rightarrow> exn + real" where
  "as_number (JInt i) = Inr (real_of_int i)"
| "as_number (JFloat r) = Inr r"
| "as_number v = Inl TypeError"

fun as_string :: "json \<Rightarrow> exn + string" where
  "as_string (JStr s) = Inr s"
| "as_string v = Inl TypeError"

text \<open>
  Modelled from the spec: reading a number or a string attribute of a view from its
  dictionary.
\<close>

definition get_number :: "pydict \<Rightarrow> string \<Rightarrow> exn + real" where
  "get_number d k = (case getitem d k of Inl e \<Rightarrow> Inl e | Inr v \<Rightarrow> as_number v)"

definition get_string :: "pydict \<Rightarrow> string \<Rightarrow> exn + string" where
  "get_string d k = (case getitem d k of Inl e \<Rightarrow> Inl e | Inr v \<Rightarrow> as_string v)"

record Token =
  access_token :: string
  refresh_token :: string
  expires_in :: real
  obtained_at :: real

text \<open>
  Modelled from the spec: \<open>objects.Token(data)\<close>, over the fields
  \<open>{access_token, refresh_token, expires_in, obtained_at}\<close> of the \<open>token\<close> field.
\<close>

definition new_Token :: "pydict \<Rightarrow> exn + Token" where
  "new_Token d =
     (case get_string d ''access_token'' of Inl e \<Rightarrow> Inl e | Inr a \<Rightarrow>
      (case get_string d ''refresh_token'' of Inl e \<Rightarrow> Inl e | Inr r \<Rightarrow>
       (case get_number d ''expires_in'' of Inl e \<Rightarrow> Inl e | Inr l \<Rightarrow>
        (case get_number d ''obtained_at'' of Inl e \<Rightarrow> Inl e | Inr t \<Rightarrow>
           Inr \<lparr>access_token = a, refresh_token = r, expires_in = l, obtained_at = t\<rparr>))))"

record User =
  user_id :: int
  user_fetched_at :: real
  user_data :: pydict

text \<open>
  Modelled from the spec: \<open>objects.User(data)\<close>, the view over the \<open>user\<close> field: its id, its
  \<open>fetched_at\<close> stamp, and the profile itself (display name, avatar).
\<close>

definition new_User :: "pydict \<Rightarrow> exn + User" where
  "new_User d =
     (case getitem d ''id'' of Inl e \<Rightarrow> Inl e | Inr v \<Rightarrow>
      (case py_int v of Inl e \<Rightarrow> Inl e | Inr i \<Rightarrow>
       (case get_number d ''fetched_at'' of Inl e \<Rightarrow> Inl e | Inr t \<Rightarrow>
          Inr \<lparr>user_id = i, user_fetched_at = t, user_data = d\<rparr>)))"

record Guild =
  guild_id :: int
  guild_fetched_at :: real
  guild_data :: pydict

text \<open>
  Modelled from the spec: \<open>objects.Guild(data)\<close>, the view over one entry of the \<open>guilds\<close>
  field: its integer id, its \<open>fetched_at\<close> stamp, and the summary itself (name, icon,
  permissions).
\<close>

definition new_Guild :: "pydict \<Rightarrow> exn + Guild" where
  "new_Guild d =
     (case getitem d ''id'' of Inl e \<Rightarrow> Inl e | Inr v \<Rightarrow>
      (case py_int v of Inl e \<Rightarrow> Inl e | Inr i \<Rightarrow>
       (case get_number d ''fetched_at'' of Inl e \<Rightarrow> Inl e | Inr t \<Rightarrow>
          Inr \<lparr>guild_id = i, guild_fetched_at = t, guild_data = d\<rparr>)))"

text \<open>
  Modelled from the spec: \<open>Guild.to_dict()\<close>, the summary of the guild as it is handed to the
  caller in \<open>RelatedGuilds\<close>.
\<close>

definition Guild_to_dict :: "Guild \<Rightarrow> pydict" where
  "Guild_to_dict g = guild_data g"

section \<open>The session, the world around it, and the collaborators\<close>

text \<open>The fields of \<open>aiohttp_session.Session\<close> that the program reads and writes.\<close>

record session =
  token :: "pydict option"
  user :: "pydict option"
  guilds :: "pydict list option"

text \<open>
  What a call can change: the session, the number of clock readings taken so far, and the
  outbound calls made so far.
\<close>

record world =
  session :: session
  ticks :: nat
  calls :: "call list"

text \<open>
  What the program is given, as parameters: the clock (\<open>clock k\<close> is the value of the
  \<open>k\<close>-th reading of \<open>time.time()\<close>), the constants of \<open>core.config\<close>, the lifetimes of a
  cached profile and of a cached guild, the answer of the OAuth provider to the POST, the
  answers of \<open>http.HTTPClient.request\<close> for the routes \<open>/users/@me\<close> (a \<open>UserResponse\<close>) and
  \<open>/users/@me/guilds\<close> (a list of \<open>GuildResponse\<close>), and the answer of the bot process on the
  IPC channel (a list of ids, or nothing). A call may raise, and its answer may depend on
  the calls made before it.
\<close>

record env =
  clock :: "nat \<Rightarrow> real"
  CLIENT_ID :: string
  CLIENT_SECRET :: string
  LOGIN_REDIRECT :: string
  user_ttl :: real
  guild_ttl :: real
  session_post :: "call list \<Rightarrow> string \<Rightarrow> (string \<times> string) list \<Rightarrow> exn + response"
  http_users_me :: "call list \<Rightarrow> string \<Rightarrow> exn + pydict"
  http_users_me_guilds :: "call list \<Rightarrow> string \<Rightarrow> exn + pydict list"
  ipc_request :: "call list \<Rightarrow> string \<Rightarrow> int \<Rightarrow> exn + int list option"

text \<open>\<open>time.time()\<close>: one reading of the clock.\<close>

definition time_time :: "env \<Rightarrow> world \<Rightarrow> real \<times> world" where
  "time_time E w = (clock E (ticks w), w\<lparr>ticks := Suc (ticks w)\<rparr>)"

text \<open>
  Modelled from the spec: \<open>Token.is_expired()\<close>, \<open>now >= obtained_at + lifetime\<close>, with one
  reading of the clock.
\<close>

definition Token_is_expired :: "env \<Rightarrow> Token \<Rightarrow> world \<Rightarrow> bool \<times> world" where
  "Token_is_expired E t w =
     (case time_time E w of (now, w') \<Rightarrow> (obtained_at t + expires_in t \<le> now, w'))"

text \<open>
  Modelled from the spec: \<open>User.is_expired()\<close>, true once the fixed lifetime of a profile
  has passed since \<open>fetched_at\<close>, with one reading of the clock.
\<close>

definition User_is_expired :: "env \<Rightarrow> User \<Rightarrow> world \<Rightarrow> bool \<times> world" where
  "User_is_expired E u w =
     (case time_time E w of (now, w') \<Rightarrow> (user_fetched_at u + user_ttl E \<le> now, w'))"

text \<open>
  Modelled from the spec: \<open>Guild.is_expired()\<close>, the same rule for one entry of the guild
  list, with the lifetime of a guild.
\<close>

definition Guild_is_expired :: "env \<Rightarrow> Guild \<Rightarrow> world \<Rightarrow> bool \<times> world" where
  "Guild_is_expired E g w =
     (case time_time E w of (now, w') \<Rightarrow> (guild_fetched_at g + guild_ttl E \<le> now, w'))"

section \<open>\<open>Dashboard.get_token\<close>\<close>

definition token_url :: string where
  "token_url = ''https://discord.com/api/oauth2/token''"

definition refresh_form :: "env \<Rightarrow> Token \<Rightarrow> (string \<times> string) list" where
  "refresh_form E t =
     [(''client_id'', CLIENT_ID E),
      (''client_secret'', CLIENT_SECRET E),
      (''grant_type'', ''refresh_token''),
      (''refresh_token'', refresh_token t),
      (''redirect_uri'', LOGIN_REDIRECT E),
      (''scope'', ''identify guilds'')]"

definition refresh_headers :: "(string \<times> string) list" where
  "refresh_headers = [(''Content-Type'', ''application/x-www-form-urlencoded'')]"

definition refresh_call :: "env \<Rightarrow> Token \<Rightarrow> call" where
  "refresh_call E t = Post token_url (refresh_form E t) refresh_headers"

definition refresh_failed :: json where
  "refresh_failed = JStr ''something went wrong while requesting refreshed discord access token.''"

text \<open>\<open>d.get(k)\<close>: the value, or \<open>None\<close>.\<close>

definition dict_get :: "pydict \<Rightarrow> string \<Rightarrow> json" where
  "dict_get d k = (case map_of d k of None \<Rightarrow> JNull | Some v \<Rightarrow> v)"

text \<open>
  The body of \<open>if token.is_expired():\<close>, from the POST to the new token. A body that is not
  a dictionary has no \<open>get\<close>.
\<close>

definition refresh :: "env \<Rightarrow> Token \<Rightarrow> world \<Rightarrow> (exn + Token option) \<times> world" where
  "refresh E t w =
     (let w1 = w\<lparr>calls := calls w @ [refresh_call E t]\<rparr> in
      case session_post E (calls w) token_url (refresh_form E t) of
        Inl e \<Rightarrow> (Inl e, w1)
      | Inr resp \<Rightarrow>
          if status resp \<noteq> 200 then (Inl (HTTPException resp refresh_failed), w1)
          else
            (case json_body resp of
               None \<Rightarrow> (Inl ContentTypeError, w1)
             | Some (JObj data) \<Rightarrow>
                 (let error = dict_get data ''error'' in
                  if truthy error then (Inl (HTTPException resp error), w1)
                  else
                    (let w2 = w1\<lparr>session := (session w1)\<lparr>token := Some data\<rparr>\<rparr> in
                     case new_Token data of
                       Inl e \<Rightarrow> (Inl e, w2)
                     | Inr t' \<Rightarrow> (Inr (Some t'), w2)))
             | Some other \<Rightarrow> (Inl AttributeError, w1)))"

definition get_token :: "env \<Rightarrow> world \<Rightarrow> (exn + Token option) \<times> world" where
  "get_token E w =
     (case token (session w) of
        None \<Rightarrow> (Inr None, w)
      | Some data \<Rightarrow>
          if data = [] then (Inr None, w)
          else
            (case new_Token data of
               Inl e \<Rightarrow> (Inl e, w)
             | Inr t \<Rightarrow>
                 (case Token_is_expired E t w of
                    (True, w1) \<Rightarrow> refresh E t w1
                  | (False, w1) \<Rightarrow> (Inr (Some t), w1))))"

section \<open>\<open>Dashboard.fetch_user\<close> and \<open>Dashboard.get_user\<close>\<close>

definition fetch_user :: "env \<Rightarrow> world \<Rightarrow> (exn + User option) \<times> world" where
  "fetch_user E w =
     (case get_token E w of
        (Inl e, w1) \<Rightarrow> (Inl e, w1)
      | (Inr None, w1) \<Rightarrow> (Inr None, w1)
      | (Inr (Some t), w1) \<Rightarrow>
          (let w2 = w1\<lparr>calls := calls w1 @ [Request ''GET'' ''/users/@me'' (access_token t)]\<rparr> in
           case http_users_me E (calls w1) (access_token t) of
             Inl e \<Rightarrow> (Inl e, w2)
           | Inr data \<Rightarrow>
               (case time_time E w2 of
                  (now, w3) \<Rightarrow>
                    (let data' = AList.update ''fetched_at'' (JFloat now) data;
                         w4 = w3\<lparr>session := (session w3)\<lparr>user := Some data'\<rparr>\<rparr> in
                     case new_User data' of
                       Inl e \<Rightarrow> (Inl e, w4)
                     | Inr u \<Rightarrow> (Inr (Some u), w4)))))"

definition get_user :: "env \<Rightarrow> world \<Rightarrow> (exn + User option) \<times> world" where
  "get_user E w =
     (case user (session w) of
        None \<Rightarrow> fetch_user E w
      | Some data \<Rightarrow>
          if data = [] then fetch_user E w
          else
            (case new_User data of
               Inl e \<Rightarrow> (Inl e, w)
             | Inr u \<Rightarrow>
                 (case User_is_expired E u w of
                    (True, w1) \<Rightarrow> fetch_user E w1
                  | (False, w1) \<Rightarrow> (Inr (Some u), w1))))"

section \<open>\<open>Dashboard.fetch_user_guilds\<close> and \<open>Dashboard.get_user_guilds\<close>\<close>

text \<open>
  \<open>{int(data["id"]): objects.Guild(data) for data in guilds_data}\<close>: a dictionary in
  insertion order; a later entry with the id of an earlier one takes its place.
\<close>

fun guilds_dict :: "pydict list \<Rightarrow> (int \<times> Guild) list \<Rightarrow> exn + (int \<times> Guild) list" where
  "guilds_dict [] acc = Inr acc"
| "guilds_dict (d # ds) acc =
     (case getitem d ''id'' of
        Inl e \<Rightarrow> Inl e
      | Inr v \<Rightarrow>
          (case py_int v of
             Inl e \<Rightarrow> Inl e
           | Inr k \<Rightarrow>
               (case new_Guild d of
                  Inl e \<Rightarrow> Inl e
                | Inr g \<Rightarrow> guilds_dict ds (AList.update k g acc))))"

text \<open>\<open>guilds.values()\<close>.\<close>

definition dict_values :: "('k \<times> 'v) list \<Rightarrow> 'v list" where
  "dict_values m = map snd m"

text \<open>\<open>for guild_data in guilds_data: guild_data["fetched_at"] = time.time()\<close>.\<close>

fun stamp_guilds :: "env \<Rightarrow> pydict list \<Rightarrow> world \<Rightarrow> pydict list \<times> world" where
  "stamp_guilds E [] w = ([], w)"
| "stamp_guilds E (d # ds) w =
     (case time_time E w of
        (now, w1) \<Rightarrow>
          (case stamp_guilds E ds w1 of
             (ds', w2) \<Rightarrow> (AList.update ''fetched_at'' (JFloat now) d # ds', w2)))"

definition fetch_user_guilds :: "env \<Rightarrow> world \<Rightarrow> (exn + (int \<times> Guild) list option) \<times> world" where
  "fetch_user_guilds E w =
     (case get_token E w of
        (Inl e, w1) \<Rightarrow> (Inl e, w1)
      | (Inr None, w1) \<Rightarrow> (Inr None, w1)
      | (Inr (Some t), w1) \<Rightarrow>
          (let w2 = w1\<lparr>calls := calls w1 @ [Request ''GET'' ''/users/@me/guilds'' (access_token t)]\<rparr> in
           case http_users_me_guilds E (calls w1) (access_token t) of
             Inl e \<Rightarrow> (Inl e, w2)
           | Inr guilds_data \<Rightarrow>
               (case stamp_guilds E guilds_data w2 of
                  (guilds_data', w3) \<Rightarrow>
                    (let w4 = w3\<lparr>session := (session w3)\<lparr>guilds := Some guilds_data'\<rparr>\<rparr> in
                     case guilds_dict guilds_data' [] of
                       Inl e \<Rightarrow> (Inl e, w4)
                     | Inr gs \<Rightarrow> (Inr (Some gs), w4)))))"

text \<open>\<open>any(guild.is_expired() for guild in guilds.values())\<close>: stops at the first expired one.\<close>

fun any_is_expired :: "env \<Rightarrow> Guild list \<Rightarrow> world \<Rightarrow> bool \<times> world" where
  "any_is_expired E [] w = (False, w)"
| "any_is_expired E (g # gs) w =
     (case Guild_is_expired E g w of
        (True, w1) \<Rightarrow> (True, w1)
      | (False, w1) \<Rightarrow> any_is_expired E gs w1)"

definition get_user_guilds :: "env \<Rightarrow> world \<Rightarrow> (exn + (int \<times> Guild) list option) \<times> world" where
  "get_user_guilds E w =
     (case guilds (session w) of
        None \<Rightarrow> fetch_user_guilds E w
      | Some guilds_data \<Rightarrow>
          if guilds_data = [] then fetch_user_guilds E w
          else
            (case guilds_dict guilds_data [] of
               Inl e \<Rightarrow> (Inl e, w)
             | Inr gs \<Rightarrow>
                 (case any_is_expired E (dict_values gs) w of
                    (True, w1) \<Rightarrow> fetch_user_guilds E w1
                  | (False, w1) \<Rightarrow> (Inr (Some gs), w1))))"

section \<open>\<open>Dashboard.get_related_guilds\<close>\<close>

record related_guilds =
  mutual_guilds :: "pydict list option"
  non_mutual_guilds :: "pydict list option"
  guild :: "pydict option"

definition no_related_guilds :: related_guilds where
  "no_related_guilds = \<lparr>mutual_guilds = None, non_mutual_guilds = None, guild = None\<rparr>"

text \<open>\<open>discord.utils.get(iterable, id=guild_id)\<close>: the first element with that id.\<close>

definition utils_get :: "Guild list \<Rightarrow> int \<Rightarrow> Guild option" where
  "utils_get gs i = find (\<lambda>g. guild_id g = i) gs"

text \<open>\<open>answer or []\<close>, for the answer of the IPC request.\<close>

definition or_empty :: "int list option \<Rightarrow> int list" where
  "or_empty answer = (case answer of None \<Rightarrow> [] | Some ids \<Rightarrow> if ids = [] then [] else ids)"

text \<open>The three assignments after the IPC request, for \<open>mutual_guild_ids\<close>.\<close>

definition relate :: "(int \<times> Guild) list \<Rightarrow> int list \<Rightarrow> int option \<Rightarrow> related_guilds" where
  "relate gs mutual_guild_ids gid =
     (let mutual = filter (\<lambda>g. guild_id g \<in> set mutual_guild_ids) (dict_values gs);
          data = \<lparr>mutual_guilds = Some (map Guild_to_dict mutual),
                  non_mutual_guilds =
                    Some (map Guild_to_dict
                      (filter (\<lambda>g. guild_id g \<notin> set mutual_guild_ids) (dict_values gs))),
                  guild = None\<rparr> in
      case gid of
        None \<Rightarrow> data
      | Some i \<Rightarrow>
          if i = 0 then data
          else
            (case utils_get mutual i of
               None \<Rightarrow> data
             | Some g \<Rightarrow> data\<lparr>guild := Some (Guild_to_dict g)\<rparr>))"

definition get_related_guilds ::
  "env \<Rightarrow> world \<Rightarrow> int \<Rightarrow> int option \<Rightarrow> (exn + related_guilds) \<times> world" where
  "get_related_guilds E w uid gid =
     (case get_user_guilds E w of
        (Inl e, w1) \<Rightarrow> (Inl e, w1)
      | (Inr None, w1) \<Rightarrow> (Inr no_related_guilds, w1)
      | (Inr (Some gs), w1) \<Rightarrow>
          if gs = [] then (Inr no_related_guilds, w1)
          else
            (let w2 = w1\<lparr>calls := calls w1 @ [IpcRequest ''mutual_guild_ids'' uid]\<rparr> in
             case ipc_request E (calls w1) ''mutual_guild_ids'' uid of
               Inl e \<Rightarrow> (Inl e, w2)
             | Inr answer \<Rightarrow>
                 (let mutual_guild_ids = or_empty answer in
                  (Inr (relate gs mutual_guild_ids gid), w2))))"

section \<open>Example sessions and collaborators\<close>

definition token_A :: pydict where
  "token_A = [(''access_token'', JStr ''A''), (''refresh_token'', JStr ''R''),
              (''expires_in'', JInt 3600), (''obtained_at'', JInt 0)]"

definition token_B :: pydict where
  "token_B = [(''access_token'', JStr ''B''), (''refresh_token'', JStr ''S''),
              (''expires_in'', JInt 3600), (''obtained_at'', JInt 3700)]"

definition Token_A :: Token where
  "Token_A = \<lparr>access_token = ''A'', refresh_token = ''R'', expires_in = 3600, obtained_at = 0\<rparr>"

definition Token_B :: Token where
  "Token_B = \<lparr>access_token = ''B'', refresh_token = ''S'', expires_in = 3600, obtained_at = 3700\<rparr>"

definition profile_7 :: pydict where
  "profile_7 = [(''id'', JStr ''7''), (''username'', JStr ''u''), (''fetched_at'', JFloat 3600)]"

definition guild_1 :: pydict where
  "guild_1 = [(''id'', JStr ''1''), (''name'', JStr ''one''), (''fetched_at'', JFloat 3600)]"

definition guild_2 :: pydict where
  "guild_2 = [(''id'', JStr ''2''), (''name'', JStr ''two''), (''fetched_at'', JFloat 3600)]"

definition response_B :: response where
  "response_B = \<lparr>status = 200, json_body = Some (JObj token_B)\<rparr>"

definition env_ex :: env where
  "env_ex =
     \<lparr>clock = (\<lambda>k. 3700 + real k),
      CLIENT_ID = ''client'', CLIENT_SECRET = ''secret'', LOGIN_REDIRECT = ''redirect'',
      user_ttl = 300, guild_ttl = 300,
      session_post = (\<lambda>cs url form. Inr response_B),
      http_users_me = (\<lambda>cs tok. Inr profile_7),
      http_users_me_guilds = (\<lambda>cs tok. Inr [guild_1, guild_2]),
      ipc_request = (\<lambda>cs endpoint uid. Inr (Some [1]))\<rparr>"

definition session_A :: session where
  "session_A = \<lparr>token = Some token_A, user = None, guilds = None\<rparr>"

definition world_A :: world where
  "world_A = \<lparr>session = session_A, ticks = 0, calls = []\<rparr>"

definition env_early :: env where
  "env_early = env_ex\<lparr>clock := (\<lambda>k. 10 + real k)\<rparr>"

definition session_none :: session where
  "session_none = \<lparr>token = None, user = None, guilds = None\<rparr>"

definition world_none :: world where
  "world_none = \<lparr>session = session_none, ticks = 0, calls = []\<rparr>"

definition token_E :: pydict where
  "token_E = (''error'', JStr '''') # token_B"

definition response_E :: response where
  "response_E = \<lparr>status = 200, json_body = Some (JObj token_E)\<rparr>"

definition env_E :: env where
  "env_E = env_ex\<lparr>session_post := (\<lambda>cs url form. Inr response_E)\<rparr>"

definition response_401 :: response where
  "response_401 = \<lparr>status = 401, json_body = None\<rparr>"

definition env_401 :: env where
  "env_401 = env_ex\<lparr>session_post := (\<lambda>cs url form. Inr response_401)\<rparr>"

definition body_invalid_grant :: pydict where
  "body_invalid_grant = [(''error'', JStr ''invalid_grant'')]"

definition response_invalid_grant :: response where
  "response_invalid_grant = \<lparr>status = 200, json_body = Some (JObj body_invalid_grant)\<rparr>"

definition env_invalid_grant :: env where
  "env_invalid_grant = env_ex\<lparr>session_post := (\<lambda>cs url form. Inr response_invalid_grant)\<rparr>"

definition User_7 :: User where
  "User_7 = \<lparr>user_id = 7, user_fetched_at = 3600, user_data = profile_7\<rparr>"

definition Guild_1 :: Guild where
  "Guild_1 = \<lparr>guild_id = 1, guild_fetched_at = 3600, guild_data = guild_1\<rparr>"

definition Guild_2 :: Guild where
  "Guild_2 = \<lparr>guild_id = 2, guild_fetched_at = 3600, guild_data = guild_2\<rparr>"

definition session_cached :: session where
  "session_cached = \<lparr>token = None, user = Some profile_7, guilds = Some [guild_1, guild_2]\<rparr>"

definition world_cached :: world where
  "world_cached = \<lparr>session = session_cached, ticks = 0, calls = []\<rparr>"

definition env_late :: env where
  "env_late = env_ex\<lparr>clock := (\<lambda>k. 5000 + real k)\<rparr>"

definition session_in :: session where
  "session_in = \<lparr>token = Some token_B, user = Some profile_7, guilds = Some [guild_1, guild_2]\<rparr>"

definition world_in :: world where
  "world_in = \<lparr>session = session_in, ticks = 0, calls = []\<rparr>"

definition env_silent :: env where
  "env_silent = env_ex\<lparr>ipc_request := (\<lambda>cs endpoint uid. Inr None)\<rparr>"

definition session_B :: session where
  "session_B = \<lparr>token = Some token_B, user = None, guilds = None\<rparr>"

definition world_B :: world where
  "world_B = \<lparr>session = session_B, ticks = 0, calls = []\<rparr>"

definition env_lonely :: env where
  "env_lonely = env_ex\<lparr>http_users_me_guilds := (\<lambda>cs tok. Inr [])\<rparr>"

definition guild_1_again :: pydict where
  "guild_1_again = [(''id'', JStr ''1''), (''name'', JStr ''one''), (''fetched_at'', JFloat 5002)]"

definition guild_2_again :: pydict where
  "guild_2_again = [(''id'', JStr ''2''), (''name'', JStr ''two''), (''fetched_at'', JFloat 5003)]"

definition Guild_1_again :: Guild where
  "Guild_1_again = \<lparr>guild_id = 1, guild_fetched_at = 5002, guild_data = guild_1_again\<rparr>"

definition Guild_2_again :: Guild where
  "Guild_2_again = \<lparr>guild_id = 2, guild_fetched_at = 5003, guild_data = guild_2_again\<rparr>"

section \<open>Facts about \<open>get_token\<close>\<close>

lemma new_Token_Nil: "new_Token [] = Inl (KeyError ''access_token'')"
  by (simp add: new_Token_def get_string_def getitem_def)

lemma new_Token_nonempty: "new_Token d = Inr t \<Longrightarrow> d \<noteq> []"
  using new_Token_Nil by auto

lemma Token_is_expired_snd: "snd (Token_is_expired E t w) = w\<lparr>ticks := Suc (ticks w)\<rparr>"
  by (simp add: Token_is_expired_def time_time_def)

lemma Token_is_expired_eq:
  "Token_is_expired E t w = (fst (Token_is_expired E t w), w\<lparr>ticks := Suc (ticks w)\<rparr>)"
  by (simp add: Token_is_expired_def time_time_def)

lemma get_token_fresh:
  assumes "token (session w) = Some d" and "new_Token d = Inr t"
    and "\<not> fst (Token_is_expired E t w)"
  shows "get_token E w = (Inr (Some t), w\<lparr>ticks := Suc (ticks w)\<rparr>)"
proof -
  have "d \<noteq> []" using assms(2) by (rule new_Token_nonempty)
  moreover have "Token_is_expired E t w = (False, w\<lparr>ticks := Suc (ticks w)\<rparr>)"
    using assms(3) Token_is_expired_eq [of E t w] by simp
  ultimately show ?thesis
    using assms(1,2) by (simp add: get_token_def)
qed

lemma get_token_stale:
  assumes "token (session w) = Some d" and "new_Token d = Inr t"
    and "fst (Token_is_expired E t w)"
  shows "get_token E w = refresh E t (w\<lparr>ticks := Suc (ticks w)\<rparr>)"
proof -
  have "d \<noteq> []" using assms(2) by (rule new_Token_nonempty)
  moreover have "Token_is_expired E t w = (True, w\<lparr>ticks := Suc (ticks w)\<rparr>)"
    using assms(3) Token_is_expired_eq [of E t w] by simp
  ultimately show ?thesis
    using assms(1,2) by (simp add: get_token_def)
qed

lemma refresh_calls: "calls (snd (refresh E t w)) = calls w @ [refresh_call E t]"
  by (simp add: refresh_def Let_def split: sum.splits option.splits json.splits)

lemma refresh_ticks: "ticks (snd (refresh E t w)) = ticks w"
  by (simp add: refresh_def Let_def split: sum.splits option.splits json.splits)

lemma refresh_ok:
  assumes "session_post E (calls w) token_url (refresh_form E t) = Inr resp"
    and "status resp = 200" and "json_body resp = Some (JObj data)"
    and "\<not> truthy (dict_get data ''error'')"
  shows "refresh E t w =
    (case new_Token data of Inl e \<Rightarrow> Inl e | Inr t' \<Rightarrow> Inr (Some t'),
     w\<lparr>calls := calls w @ [refresh_call E t], session := (session w)\<lparr>token := Some data\<rparr>\<rparr>)"
  using assms by (simp add: refresh_def Let_def split: sum.splits)

lemma refresh_rejected:
  assumes "session_post E (calls w) token_url (refresh_form E t) = Inr resp"
    and "status resp \<noteq> 200 \<or> (json_body resp = Some (JObj data) \<and> truthy (dict_get data ''error''))"
  shows "refresh E t w =
    (Inl (HTTPException resp (if status resp \<noteq> 200 then refresh_failed else dict_get data ''error'')),
     w\<lparr>calls := calls w @ [refresh_call E t]\<rparr>)"
  using assms by (auto simp add: refresh_def Let_def)

lemma get_token_absent: "token (session w) = None \<Longrightarrow> get_token E w = (Inr None, w)"
  by (simp add: get_token_def)

lemma refresh_no_other_calls:
  "filter is_Request (calls (snd (refresh E t w))) = filter is_Request (calls w) \<and>
   filter is_IpcRequest (calls (snd (refresh E t w))) = filter is_IpcRequest (calls w)"
  by (simp add: refresh_calls refresh_call_def)

lemma get_token_no_other_calls:
  "filter is_Request (calls (snd (get_token E w))) = filter is_Request (calls w) \<and>
   filter is_IpcRequest (calls (snd (get_token E w))) = filter is_IpcRequest (calls w)"
proof (cases "token (session w)")
  case None
  then show ?thesis by (simp add: get_token_absent)
next
  case (Some d)
  show ?thesis
  proof (cases "d = []")
    case True
    with Some show ?thesis by (simp add: get_token_def)
  next
    case False
    show ?thesis
    proof (cases "new_Token d")
      case (Inl e)
      with Some False show ?thesis by (simp add: get_token_def)
    next
      case (Inr t)
      show ?thesis
      proof (cases "fst (Token_is_expired E t w)")
        case True
        from get_token_stale [OF Some Inr True] show ?thesis
          by (simp add: refresh_no_other_calls)
      next
        case False
        from get_token_fresh [OF Some Inr False] show ?thesis
          by simp
      qed
    qed
  qed
qed

section \<open>Facts about the cached profile and guild list\<close>

lemma User_is_expired_eq:
  "User_is_expired E u w = (fst (User_is_expired E u w), w\<lparr>ticks := Suc (ticks w)\<rparr>)"
  by (simp add: User_is_expired_def time_time_def)

lemma Guild_is_expired_eq:
  "Guild_is_expired E g w = (fst (Guild_is_expired E g w), w\<lparr>ticks := Suc (ticks w)\<rparr>)"
  by (simp add: Guild_is_expired_def time_time_def)

lemma any_is_expired_world:
  "\<exists>k. snd (any_is_expired E gs w) = w\<lparr>ticks := ticks w + k\<rparr>"
proof (induction gs arbitrary: w)
  case Nil
  have "w = w\<lparr>ticks := ticks w + 0\<rparr>" by simp
  then show ?case by (metis any_is_expired.simps(1) snd_conv)
next
  case (Cons g gs)
  let ?w1 = "w\<lparr>ticks := Suc (ticks w)\<rparr>"
  show ?case
  proof (cases "fst (Guild_is_expired E g w)")
    case True
    then have "Guild_is_expired E g w = (True, ?w1)"
      using Guild_is_expired_eq [of E g w] by simp
    then have "snd (any_is_expired E (g # gs) w) = w\<lparr>ticks := ticks w + 1\<rparr>"
      by simp
    then show ?thesis by blast
  next
    case False
    then have "Guild_is_expired E g w = (False, ?w1)"
      using Guild_is_expired_eq [of E g w] by simp
    then have eq: "any_is_expired E (g # gs) w = any_is_expired E gs ?w1"
      by simp
    from Cons.IH [of ?w1] obtain k where "snd (any_is_expired E gs ?w1) = ?w1\<lparr>ticks := ticks ?w1 + k\<rparr>"
      by blast
    then have "snd (any_is_expired E (g # gs) w) = w\<lparr>ticks := ticks w + Suc k\<rparr>"
      by (simp add: eq del: any_is_expired.simps)
    then show ?thesis by blast
  qed
qed

lemma any_is_expired_session: "session (snd (any_is_expired E gs w)) = session w"
  using any_is_expired_world [of E gs w] by (auto simp del: any_is_expired.simps)

lemma any_is_expired_calls: "calls (snd (any_is_expired E gs w)) = calls w"
  using any_is_expired_world [of E gs w] by (auto simp del: any_is_expired.simps)

lemma fetch_user_absent: "token (session w) = None \<Longrightarrow> fetch_user E w = (Inr None, w)"
  by (simp add: fetch_user_def get_token_absent)

lemma fetch_user_guilds_absent:
  "token (session w) = None \<Longrightarrow> fetch_user_guilds E w = (Inr None, w)"
  by (simp add: fetch_user_guilds_def get_token_absent)

lemma get_user_uncached:
  "user (session w) = None \<or> user (session w) = Some [] \<Longrightarrow> get_user E w = fetch_user E w"
  by (auto simp add: get_user_def)

lemma get_user_fresh:
  assumes "user (session w) = Some d" and "new_User d = Inr u"
    and "\<not> fst (User_is_expired E u w)"
  shows "get_user E w = (Inr (Some u), w\<lparr>ticks := Suc (ticks w)\<rparr>)"
proof -
  have "d \<noteq> []"
    using assms(2) by (auto simp add: new_User_def getitem_def)
  moreover have "User_is_expired E u w = (False, w\<lparr>ticks := Suc (ticks w)\<rparr>)"
    using assms(3) User_is_expired_eq [of E u w] by simp
  ultimately show ?thesis
    using assms(1,2) by (simp add: get_user_def)
qed

lemma get_user_stale:
  assumes "user (session w) = Some d" and "new_User d = Inr u"
    and "fst (User_is_expired E u w)"
  shows "get_user E w = fetch_user E (w\<lparr>ticks := Suc (ticks w)\<rparr>)"
proof -
  have "d \<noteq> []"
    using assms(2) by (auto simp add: new_User_def getitem_def)
  moreover have "User_is_expired E u w = (True, w\<lparr>ticks := Suc (ticks w)\<rparr>)"
    using assms(3) User_is_expired_eq [of E u w] by simp
  ultimately show ?thesis
    using assms(1,2) by (simp add: get_user_def)
qed

lemma get_user_guilds_uncached:
  "guilds (session w) = None \<or> guilds (session w) = Some [] \<Longrightarrow>
   get_user_guilds E w = fetch_user_guilds E w"
  by (auto simp add: get_user_guilds_def)

lemma get_user_guilds_fresh:
  assumes "guilds (session w) = Some ds" and "ds \<noteq> []" and "guilds_dict ds [] = Inr gs"
    and "\<not> fst (any_is_expired E (dict_values gs) w)"
  shows "get_user_guilds E w = (Inr (Some gs), snd (any_is_expired E (dict_values gs) w))"
  using assms by (auto simp add: get_user_guilds_def split: prod.splits bool.splits)

lemma get_user_guilds_stale:
  assumes "guilds (session w) = Some ds" and "ds \<noteq> []" and "guilds_dict ds [] = Inr gs"
    and "fst (any_is_expired E (dict_values gs) w)"
  shows "get_user_guilds E w = fetch_user_guilds E (snd (any_is_expired E (dict_values gs) w))"
  using assms by (auto simp add: get_user_guilds_def split: prod.splits bool.splits)

lemma new_User_nonempty: "new_User d = Inr u \<Longrightarrow> d \<noteq> []"
  by (auto simp add: new_User_def getitem_def)

section \<open>Facts about the guild list and \<open>get_related_guilds\<close>\<close>

lemma new_Guild_data: "new_Guild d = Inr g \<Longrightarrow> guild_data g = d"
  by (auto simp add: new_Guild_def split: sum.splits)

lemma new_Guild_id:
  "new_Guild d = Inr g \<Longrightarrow> getitem d ''id'' = Inr v \<Longrightarrow> py_int v = Inr (guild_id g)"
  by (auto simp add: new_Guild_def split: sum.splits)

lemma set_update_subset: "set (AList.update k v al) \<subseteq> insert (k, v) (set al)"
  by (induction al) auto

text \<open>Every guild of the mapping is the view of its own summary, under its own id.\<close>

lemma guilds_dict_views:
  assumes "guilds_dict ds acc = Inr gs"
    and "\<And>k g. (k, g) \<in> set acc \<Longrightarrow> new_Guild (guild_data g) = Inr g \<and> guild_id g = k"
    and "(k, g) \<in> set gs"
  shows "new_Guild (guild_data g) = Inr g \<and> guild_id g = k"
  using assms
proof (induction ds arbitrary: acc)
  case Nil
  then show ?case by simp
next
  case (Cons d ds)
  from Cons.prems(1) obtain v k' g' where v: "getitem d ''id'' = Inr v"
    and k': "py_int v = Inr k'" and g': "new_Guild d = Inr g'"
    and rest: "guilds_dict ds (AList.update k' g' acc) = Inr gs"
    by (auto split: sum.splits)
  have new: "new_Guild (guild_data g') = Inr g' \<and> guild_id g' = k'"
    using new_Guild_data [OF g'] new_Guild_id [OF g' v] k' g' by simp
  have "new_Guild (guild_data b) = Inr b \<and> guild_id b = a"
    if "(a, b) \<in> set (AList.update k' g' acc)" for a b
  proof -
    from that set_update_subset [of k' g' acc] have "(a, b) = (k', g') \<or> (a, b) \<in> set acc"
      by auto
    then show ?thesis using new Cons.prems(2) by auto
  qed
  from Cons.IH [OF rest this Cons.prems(3)] show ?case .
qed

lemma guilds_dict_nonempty:
  "guilds_dict ds acc = Inr gs \<Longrightarrow> ds \<noteq> [] \<or> acc \<noteq> [] \<Longrightarrow> gs \<noteq> []"
proof (induction ds arbitrary: acc)
  case Nil
  then show ?case by simp
next
  case (Cons d ds)
  from Cons.prems(1) obtain k' g' where "guilds_dict ds (AList.update k' g' acc) = Inr gs"
    by (auto split: sum.splits)
  from Cons.IH [OF this] show ?case by simp
qed

lemma guilds_dict_empty: "guilds_dict ds [] = Inr [] \<Longrightarrow> ds = []"
  using guilds_dict_nonempty [of ds "[]" "[]"] by auto

lemma stamp_guilds_world: "snd (stamp_guilds E ds w) = w\<lparr>ticks := ticks w + length ds\<rparr>"
proof (induction ds arbitrary: w)
  case Nil
  show ?case by simp
next
  case (Cons d ds)
  show ?case
    using Cons.IH [of "w\<lparr>ticks := Suc (ticks w)\<rparr>"]
    by (auto simp add: time_time_def split: prod.splits)
qed

lemma stamp_guilds_length: "length (fst (stamp_guilds E ds w)) = length ds"
proof (induction ds arbitrary: w)
  case Nil
  show ?case by simp
next
  case (Cons d ds)
  show ?case
    using Cons.IH [of "w\<lparr>ticks := Suc (ticks w)\<rparr>"]
    by (auto simp add: time_time_def split: prod.splits)
qed

lemma stamp_guilds_nth:
  "i < length ds \<Longrightarrow>
   fst (stamp_guilds E ds w) ! i =
     AList.update ''fetched_at'' (JFloat (clock E (ticks w + i))) (ds ! i)"
proof (induction ds arbitrary: w i)
  case Nil
  then show ?case by simp
next
  case (Cons d ds)
  show ?case
  proof (cases i)
    case 0
    then show ?thesis by (auto simp add: time_time_def split: prod.splits)
  next
    case (Suc j)
    with Cons.prems have "j < length ds" by simp
    from Cons.IH [OF this, of "w\<lparr>ticks := Suc (ticks w)\<rparr>"] Suc show ?thesis
      by (auto simp add: time_time_def split: prod.splits)
  qed
qed

lemma stamp_guilds_calls_irrelevant:
  "fst (stamp_guilds E ds (w\<lparr>calls := cs\<rparr>)) = fst (stamp_guilds E ds w)"
proof (rule nth_equalityI)
  show "length (fst (stamp_guilds E ds (w\<lparr>calls := cs\<rparr>))) = length (fst (stamp_guilds E ds w))"
    by (simp add: stamp_guilds_length)
next
  fix i
  assume "i < length (fst (stamp_guilds E ds (w\<lparr>calls := cs\<rparr>)))"
  then have "i < length ds" by (simp add: stamp_guilds_length)
  then show "fst (stamp_guilds E ds (w\<lparr>calls := cs\<rparr>)) ! i = fst (stamp_guilds E ds w) ! i"
    by (simp add: stamp_guilds_nth)
qed

text \<open>What \<open>fetch_user_guilds\<close> does once the token is there and the list has come.\<close>

lemma fetch_user_guilds_fetched:
  assumes "get_token E w = (Inr (Some t), w1)"
    and "http_users_me_guilds E (calls w1) (access_token t) = Inr fetched"
  shows "fetch_user_guilds E w =
    (case guilds_dict (fst (stamp_guilds E fetched w1)) [] of
       Inl e \<Rightarrow> Inl e
     | Inr gs \<Rightarrow> Inr (Some gs),
     w1\<lparr>calls := calls w1 @ [Request ''GET'' ''/users/@me/guilds'' (access_token t)],
        ticks := ticks w1 + length fetched,
        session := (session w1)\<lparr>guilds := Some (fst (stamp_guilds E fetched w1))\<rparr>\<rparr>)"
proof -
  let ?w2 = "w1\<lparr>calls := calls w1 @ [Request ''GET'' ''/users/@me/guilds'' (access_token t)]\<rparr>"
  have st: "stamp_guilds E fetched ?w2 =
      (fst (stamp_guilds E fetched w1), ?w2\<lparr>ticks := ticks ?w2 + length fetched\<rparr>)"
    using stamp_guilds_world [of E fetched ?w2] stamp_guilds_calls_irrelevant [of E fetched _ w1]
    by (metis prod.collapse)
  show ?thesis
    using assms by (simp add: fetch_user_guilds_def Let_def st split: sum.splits)
qed

lemma fetch_user_guilds_cases:
  "(\<exists>e. fst (fetch_user_guilds E w) = Inl e) \<or>
   fetch_user_guilds E w = (Inr None, snd (get_token E w)) \<or>
   (\<exists>t w1 fetched. get_token E w = (Inr (Some t), w1) \<and>
      http_users_me_guilds E (calls w1) (access_token t) = Inr fetched)"
proof (cases "get_token E w")
  case (Pair r w1)
  show ?thesis
  proof (cases r)
    case (Inl e)
    with Pair show ?thesis by (simp add: fetch_user_guilds_def)
  next
    case (Inr o1)
    show ?thesis
    proof (cases o1)
      case None
      with Pair Inr show ?thesis by (simp add: fetch_user_guilds_def)
    next
      case (Some t)
      show ?thesis
      proof (cases "http_users_me_guilds E (calls w1) (access_token t)")
        case (Inl e)
        with Pair Inr Some show ?thesis by (simp add: fetch_user_guilds_def Let_def)
      next
        case (Inr fetched)
        with Pair \<open>r = Inr o1\<close> Some show ?thesis by simp
      qed
    qed
  qed
qed

lemma fetch_user_guilds_no_ipc:
  "filter is_IpcRequest (calls (snd (fetch_user_guilds E w))) = filter is_IpcRequest (calls w)"
proof (cases "get_token E w")
  case (Pair r w1)
  have w1: "filter is_IpcRequest (calls w1) = filter is_IpcRequest (calls w)"
    using get_token_no_other_calls [of E w] Pair by simp
  show ?thesis
  proof (cases r)
    case (Inl e)
    with Pair w1 show ?thesis by (simp add: fetch_user_guilds_def)
  next
    case (Inr o1)
    show ?thesis
    proof (cases o1)
      case None
      with Pair Inr w1 show ?thesis by (simp add: fetch_user_guilds_def)
    next
      case (Some t)
      show ?thesis
      proof (cases "http_users_me_guilds E (calls w1) (access_token t)")
        case (Inl e)
        with Pair \<open>r = Inr o1\<close> Some w1 show ?thesis
          by (simp add: fetch_user_guilds_def Let_def)
      next
        case (Inr fetched)
        from Pair \<open>r = Inr o1\<close> Some have "get_token E w = (Inr (Some t), w1)" by simp
        from fetch_user_guilds_fetched [OF this Inr] w1 show ?thesis by simp
      qed
    qed
  qed
qed

lemma fetch_user_guilds_views:
  assumes "fetch_user_guilds E w = (Inr (Some gs), w')"
  shows "\<exists>ds. guilds_dict ds [] = Inr gs \<and> guilds (session w') = Some ds"
proof -
  from fetch_user_guilds_cases [of E w] assms
  obtain t w1 fetched where tok: "get_token E w = (Inr (Some t), w1)"
    and got: "http_users_me_guilds E (calls w1) (access_token t) = Inr fetched"
    by auto
  from fetch_user_guilds_fetched [OF tok got] assms
  have "guilds_dict (fst (stamp_guilds E fetched w1)) [] = Inr gs \<and>
      guilds (session w') = Some (fst (stamp_guilds E fetched w1))"
    by (auto split: sum.splits)
  then show ?thesis by blast
qed

text \<open>The cache state decides where \<open>get_user_guilds\<close> gets its answer.\<close>

lemma get_user_guilds_cases:
  "(\<exists>e. get_user_guilds E w = (Inl e, w)) \<or>
   (\<exists>w0. get_user_guilds E w = fetch_user_guilds E w0 \<and> session w0 = session w \<and>
      calls w0 = calls w) \<or>
   (\<exists>ds gs. guilds (session w) = Some ds \<and> ds \<noteq> [] \<and> guilds_dict ds [] = Inr gs \<and>
      \<not> fst (any_is_expired E (dict_values gs) w) \<and>
      get_user_guilds E w = (Inr (Some gs), snd (any_is_expired E (dict_values gs) w)))"
proof (cases "guilds (session w)")
  case None
  then have "get_user_guilds E w = fetch_user_guilds E w"
    by (simp add: get_user_guilds_uncached)
  then show ?thesis by blast
next
  case (Some ds)
  show ?thesis
  proof (cases "ds = []")
    case True
    with Some have "get_user_guilds E w = fetch_user_guilds E w"
      by (simp add: get_user_guilds_uncached)
    then show ?thesis by blast
  next
    case False
    show ?thesis
    proof (cases "guilds_dict ds []")
      case (Inl e)
      with Some False have "get_user_guilds E w = (Inl e, w)"
        by (simp add: get_user_guilds_def)
      then show ?thesis by blast
    next
      case (Inr gs)
      show ?thesis
      proof (cases "fst (any_is_expired E (dict_values gs) w)")
        case True
        from get_user_guilds_stale [OF Some False Inr True]
        show ?thesis
          using any_is_expired_session any_is_expired_calls by blast
      next
        case nexp: False
        from get_user_guilds_fresh [OF Some False Inr nexp] Some False Inr nexp
        show ?thesis by blast
      qed
    qed
  qed
qed

lemma get_user_guilds_no_ipc:
  "filter is_IpcRequest (calls (snd (get_user_guilds E w))) = filter is_IpcRequest (calls w)"
  using get_user_guilds_cases [of E w]
proof (elim disjE exE conjE)
  fix e
  assume "get_user_guilds E w = (Inl e, w)"
  then show ?thesis by simp
next
  fix w0
  assume "get_user_guilds E w = fetch_user_guilds E w0" and "calls w0 = calls w"
  then show ?thesis using fetch_user_guilds_no_ipc [of E w0] by simp
next
  fix ds gs
  assume "get_user_guilds E w = (Inr (Some gs), snd (any_is_expired E (dict_values gs) w))"
  then show ?thesis by (simp add: any_is_expired_calls)
qed

lemma get_user_guilds_views:
  assumes "get_user_guilds E w = (Inr (Some gs), w1)"
  shows "\<exists>ds. guilds_dict ds [] = Inr gs"
  using get_user_guilds_cases [of E w]
proof (elim disjE exE conjE)
  fix e
  assume "get_user_guilds E w = (Inl e, w)"
  with assms show ?thesis by simp
next
  fix w0
  assume "get_user_guilds E w = fetch_user_guilds E w0"
  with assms have "fetch_user_guilds E w0 = (Inr (Some gs), w1)" by simp
  from fetch_user_guilds_views [OF this] show ?thesis by blast
next
  fix ds gs'
  assume a: "guilds_dict ds [] = Inr gs'"
    and b: "get_user_guilds E w = (Inr (Some gs'), snd (any_is_expired E (dict_values gs') w))"
  have "fst (get_user_guilds E w) = Inr (Some gs')"
    by (simp only: b fst_conv)
  moreover have "fst (get_user_guilds E w) = Inr (Some gs)"
    by (simp only: assms fst_conv)
  ultimately have "gs' = gs" by simp
  with a show ?thesis by blast
qed

lemma get_user_guilds_inj:
  assumes "get_user_guilds E w = (Inr (Some gs), w1)"
  shows "inj_on Guild_to_dict (set (dict_values gs))"
proof (rule inj_onI)
  fix g h
  assume g: "g \<in> set (dict_values gs)" and h: "h \<in> set (dict_values gs)"
    and eq: "Guild_to_dict g = Guild_to_dict h"
  from get_user_guilds_views [OF assms] obtain ds where ds: "guilds_dict ds [] = Inr gs"
    by blast
  from g obtain k where "(k, g) \<in> set gs" by (auto simp add: dict_values_def)
  from guilds_dict_views [OF ds _ this] have vg: "new_Guild (guild_data g) = Inr g" by simp
  from h obtain l where "(l, h) \<in> set gs" by (auto simp add: dict_values_def)
  from guilds_dict_views [OF ds _ this] have vh: "new_Guild (guild_data h) = Inr h" by simp
  have "guild_data g = guild_data h"
    using eq by (simp only: Guild_to_dict_def)
  with vg vh have "(Inr g :: exn + Guild) = Inr h" by metis
  then show "g = h" by (simp only: sum.inject)
qed

text \<open>\<open>get_related_guilds\<close> after a guild mapping that is not empty.\<close>

lemma get_related_guilds_answered:
  assumes "get_user_guilds E w = (Inr (Some gs), w1)" and "gs \<noteq> []"
    and "ipc_request E (calls w1) ''mutual_guild_ids'' uid = Inr answer"
  shows "get_related_guilds E w uid gid =
    (Inr (relate gs (or_empty answer) gid),
     w1\<lparr>calls := calls w1 @ [IpcRequest ''mutual_guild_ids'' uid]\<rparr>)"
  using assms by (simp add: get_related_guilds_def Let_def)

lemma relate_mutual:
  "mutual_guilds (relate gs M gid) =
     Some (map Guild_to_dict (filter (\<lambda>g. guild_id g \<in> set M) (dict_values gs)))"
  by (simp add: relate_def Let_def split: option.splits)

lemma relate_non_mutual:
  "non_mutual_guilds (relate gs M gid) =
     Some (map Guild_to_dict (filter (\<lambda>g. guild_id g \<notin> set M) (dict_values gs)))"
  by (simp add: relate_def Let_def split: option.splits)

lemma relate_guild:
  "guild (relate gs M gid) =
     (case gid of
        None \<Rightarrow> None
      | Some i \<Rightarrow>
          if i = 0 then None
          else map_option Guild_to_dict
            (find (\<lambda>g. guild_id g = i) (filter (\<lambda>g. guild_id g \<in> set M) (dict_values gs))))"
  by (simp add: relate_def utils_get_def Let_def split: option.splits)

lemma or_empty_Some: "or_empty (Some ids) = ids"
  by (simp add: or_empty_def)

lemma or_empty_None: "or_empty None = []"
  by (simp add: or_empty_def)

lemma find_Some_member: "find P xs = Some x \<Longrightarrow> x \<in> set xs \<and> P x"
  by (induction xs) (auto split: if_splits)

text \<open>With a clock that stands still, the test is: some guild of the list has expired.\<close>

lemma any_is_expired_frozen:
  assumes "\<And>k. clock E k = now"
  shows "fst (any_is_expired E gs w) = (\<exists>g \<in> set gs. guild_fetched_at g + guild_ttl E \<le> now)"
proof (induction gs arbitrary: w)
  case Nil
  show ?case by simp
next
  case (Cons g gs)
  show ?case
    using Cons.IH [of "w\<lparr>ticks := Suc (ticks w)\<rparr>"] assms
    by (auto simp add: Guild_is_expired_def time_time_def split: bool.splits)
qed

lemma guilds_dict_keys:
  assumes "guilds_dict ds [] = Inr gs"
  shows "map fst gs = map guild_id (dict_values gs)"
proof -
  have "fst p = guild_id (snd p)" if "p \<in> set gs" for p
  proof -
    from that have "(fst p, snd p) \<in> set gs" by simp
    from guilds_dict_views [OF assms _ this] show ?thesis by simp
  qed
  then show ?thesis by (simp add: dict_values_def)
qed

section \<open>Facts about the examples\<close>

lemma new_Token_A: "new_Token token_A = Inr Token_A"
  by (simp add: new_Token_def get_string_def get_number_def getitem_def token_A_def Token_A_def)

lemma new_Token_B: "new_Token token_B = Inr Token_B"
  by (simp add: new_Token_def get_string_def get_number_def getitem_def token_B_def Token_B_def)

lemma int_of_str_1: "int_of_str ''1'' = Inr 1"
  by (simp add: int_of_str_def strip_def is_space_def is_digit_def digit_val_def)

lemma int_of_str_2: "int_of_str ''2'' = Inr 2"
  by (simp add: int_of_str_def strip_def is_space_def is_digit_def digit_val_def)

lemma int_of_str_7: "int_of_str ''7'' = Inr 7"
  by (simp add: int_of_str_def strip_def is_space_def is_digit_def digit_val_def)

lemma new_User_7: "new_User profile_7 = Inr User_7"
  by (simp add: new_User_def get_number_def getitem_def profile_7_def User_7_def int_of_str_7)

lemma new_Guild_1: "new_Guild guild_1 = Inr Guild_1"
  by (simp add: new_Guild_def get_number_def getitem_def guild_1_def Guild_1_def int_of_str_1)

lemma new_Guild_2: "new_Guild guild_2 = Inr Guild_2"
  by (simp add: new_Guild_def get_number_def getitem_def guild_2_def Guild_2_def int_of_str_2)

lemma guilds_dict_12: "guilds_dict [guild_1, guild_2] [] = Inr [(1, Guild_1), (2, Guild_2)]"
proof -
  have "getitem guild_1 ''id'' = Inr (JStr ''1'')" "getitem guild_2 ''id'' = Inr (JStr ''2'')"
    by (simp_all add: getitem_def guild_1_def guild_2_def)
  then show ?thesis
    by (simp add: int_of_str_1 int_of_str_2 new_Guild_1 new_Guild_2)
qed

lemma get_user_guilds_world_in:
  "clock E = clock env_ex \<Longrightarrow> guild_ttl E = guild_ttl env_ex \<Longrightarrow>
   get_user_guilds E world_in = (Inr (Some [(1, Guild_1), (2, Guild_2)]), world_in\<lparr>ticks := 2\<rparr>)"
proof -
  assume c: "clock E = clock env_ex" and l: "guild_ttl E = guild_ttl env_ex"
  have g: "guilds (session world_in) = Some [guild_1, guild_2]"
    by (simp add: world_in_def session_in_def)
  have a: "any_is_expired E (dict_values [(1::int, Guild_1), (2, Guild_2)]) world_in
      = (False, world_in\<lparr>ticks := 2\<rparr>)"
    by (simp add: dict_values_def Guild_is_expired_def time_time_def c l env_ex_def Guild_1_def
        Guild_2_def world_in_def)
  then have "\<not> fst (any_is_expired E (dict_values [(1::int, Guild_1), (2, Guild_2)]) world_in)"
    by (simp only: fst_conv) simp
  from get_user_guilds_fresh [OF g _ guilds_dict_12 this] show ?thesis
    by (simp only: a snd_conv) simp
qed

lemma get_user_guilds_world_cached:
  "get_user_guilds env_ex world_cached
     = (Inr (Some [(1, Guild_1), (2, Guild_2)]), world_cached\<lparr>ticks := 2\<rparr>)"
proof -
  have g: "guilds (session world_cached) = Some [guild_1, guild_2]"
    by (simp add: world_cached_def session_cached_def)
  have a: "any_is_expired env_ex (dict_values [(1::int, Guild_1), (2, Guild_2)]) world_cached
      = (False, world_cached\<lparr>ticks := 2\<rparr>)"
    by (simp add: dict_values_def Guild_is_expired_def time_time_def env_ex_def Guild_1_def
        Guild_2_def world_cached_def)
  then have "\<not> fst (any_is_expired env_ex (dict_values [(1::int, Guild_1), (2, Guild_2)])
      world_cached)"
    by (simp only: fst_conv) simp
  from get_user_guilds_fresh [OF g _ guilds_dict_12 this] show ?thesis
    by (simp only: a snd_conv) simp
qed

section \<open>The claims about \<open>get_token\<close>\<close>



text \<open>
  C4. A stored token that is not expired is returned as it is, with no outbound call and
  the session untouched; a session with no \<open>token\<close> field gives absent, with no outbound
  call either.
\<close>

theorem get_token_cache_hit:
  "(token (session w) = Some d \<and> new_Token d = Inr t \<and> \<not> fst (Token_is_expired E t w) \<longrightarrow>
      fst (get_token E w) = Inr (Some t) \<and>
      calls (snd (get_token E w)) = calls w \<and>
      session (snd (get_token E w)) = session w) \<and>
   (token (session w) = None \<longrightarrow>
      fst (get_token E w) = Inr None \<and>
      calls (snd (get_token E w)) = calls w \<and>
      session (snd (get_token E w)) = session w)"
proof (intro conjI impI)
  assume h: "token (session w) = Some d \<and> new_Token d = Inr t \<and> \<not> fst (Token_is_expired E t w)"
  then have eq: "get_token E w = (Inr (Some t), w\<lparr>ticks := Suc (ticks w)\<rparr>)"
    by (simp add: get_token_fresh)
  show "fst (get_token E w) = Inr (Some t)" by (simp add: eq)
  show "calls (snd (get_token E w)) = calls w" by (simp add: eq)
  show "session (snd (get_token E w)) = session w" by (simp add: eq)
next
  assume h: "token (session w) = None"
  show "fst (get_token E w) = Inr None" by (simp add: get_token_absent [OF h])
  show "calls (snd (get_token E w)) = calls w" by (simp add: get_token_absent [OF h])
  show "session (snd (get_token E w)) = session w" by (simp add: get_token_absent [OF h])
qed

theorem get_token_cache_hit_witness:
  "fst (get_token env_early world_A) = Inr (Some Token_A) \<and>
   calls (snd (get_token env_early world_A)) = [] \<and>
   session (snd (get_token env_early world_A)) = session_A \<and>
   fst (get_token env_early world_none) = Inr None \<and>
   calls (snd (get_token env_early world_none)) = [] \<and>
   session (snd (get_token env_early world_none)) = session_none"
proof -
  have h1: "token (session world_A) = Some token_A"
    by (simp add: world_A_def session_A_def)
  have h2: "\<not> fst (Token_is_expired env_early Token_A world_A)"
    by (simp add: Token_is_expired_def time_time_def env_early_def env_ex_def Token_A_def
        world_A_def)
  have h3: "token (session world_none) = None"
    by (simp add: world_none_def session_none_def)
  from get_token_cache_hit [of world_A token_A Token_A env_early]
    get_token_cache_hit [of world_none token_A Token_A env_early]
    h1 new_Token_A h2 h3
  show ?thesis by (simp add: world_A_def world_none_def)
qed

text \<open>
  C3, as the spec states it, fails: a body that has an \<open>error\<close> field with an empty message
  is taken as a success. The provider answers 200 with the new token and \<open>"error": ""\<close>;
  nothing is raised and the \<open>token\<close> field is overwritten.
\<close>

theorem get_token_empty_error_counterexample:
  "token (session world_A) = Some token_A \<and>
   new_Token token_A = Inr Token_A \<and>
   fst (Token_is_expired env_E Token_A world_A) \<and>
   session_post env_E (calls world_A) token_url (refresh_form env_E Token_A) = Inr response_E \<and>
   json_body response_E = Some (JObj token_E) \<and>
   map_of token_E ''error'' = Some (JStr '''') \<and>
   fst (get_token env_E world_A) = Inr (Some Token_B) \<and>
   token (session (snd (get_token env_E world_A))) = Some token_E \<and>
   token_E \<noteq> token_A"
proof -
  have h1: "token (session world_A) = Some token_A"
    by (simp add: world_A_def session_A_def)
  have h3: "fst (Token_is_expired env_E Token_A world_A)"
    by (simp add: Token_is_expired_def time_time_def env_E_def env_ex_def Token_A_def
        world_A_def)
  have h4: "session_post env_E (calls (world_A\<lparr>ticks := Suc (ticks world_A)\<rparr>)) token_url
      (refresh_form env_E Token_A) = Inr response_E"
    by (simp add: env_E_def)
  have h5: "status response_E = 200" and h6: "json_body response_E = Some (JObj token_E)"
    by (simp_all add: response_E_def)
  have h7: "\<not> truthy (dict_get token_E ''error'')"
    by (simp add: dict_get_def token_E_def)
  have h8: "new_Token token_E = Inr Token_B"
    by (simp add: new_Token_def get_string_def get_number_def getitem_def token_E_def
        token_B_def Token_B_def)
  have "get_token env_E world_A = refresh env_E Token_A (world_A\<lparr>ticks := Suc (ticks world_A)\<rparr>)"
    using h1 new_Token_A h3 by (rule get_token_stale)
  with refresh_ok [OF h4 h5 h6 h7] h8
  have "fst (get_token env_E world_A) = Inr (Some Token_B)"
    and "token (session (snd (get_token env_E world_A))) = Some token_E"
    by simp_all
  moreover have "map_of token_E ''error'' = Some (JStr '''')" and "token_E \<noteq> token_A"
    by (simp_all add: token_E_def token_A_def)
  moreover have "session_post env_E (calls world_A) token_url (refresh_form env_E Token_A)
      = Inr response_E"
    by (simp add: env_E_def)
  ultimately show ?thesis
    using h1 new_Token_A h3 h6 by simp
qed

text \<open>
  C3, amended. When the stored token is expired and the answer to the refresh call has a
  status other than 200, or a body whose \<open>error\<close> field holds a true value (a non-empty
  message), \<open>get_token\<close> raises \<open>HTTPException\<close> with that response and a message (the fixed
  text for the status, the \<open>error\<close> value for the body), and the session is left as it was.
\<close>

theorem get_token_refresh_rejected:
  assumes "token (session w) = Some d" and "new_Token d = Inr t"
    and "fst (Token_is_expired E t w)"
    and "session_post E (calls w) token_url (refresh_form E t) = Inr resp"
    and "status resp \<noteq> 200 \<or> (json_body resp = Some (JObj data) \<and> truthy (dict_get data ''error''))"
  shows "fst (get_token E w) =
      Inl (HTTPException resp
        (if status resp \<noteq> 200 then refresh_failed else dict_get data ''error'')) \<and>
    session (snd (get_token E w)) = session w"
proof -
  let ?w1 = "w\<lparr>ticks := Suc (ticks w)\<rparr>"
  have eq: "get_token E w = refresh E t ?w1"
    using assms(1,2,3) by (rule get_token_stale)
  have "session_post E (calls ?w1) token_url (refresh_form E t) = Inr resp"
    using assms(4) by simp
  from refresh_rejected [OF this assms(5)] show ?thesis
    by (simp add: eq)
qed

theorem get_token_refresh_rejected_witness:
  "fst (get_token env_401 world_A) = Inl (HTTPException response_401 refresh_failed) \<and>
   session (snd (get_token env_401 world_A)) = session_A \<and>
   fst (get_token env_invalid_grant world_A) =
     Inl (HTTPException response_invalid_grant (JStr ''invalid_grant'')) \<and>
   session (snd (get_token env_invalid_grant world_A)) = session_A"
proof -
  have h1: "token (session world_A) = Some token_A"
    by (simp add: world_A_def session_A_def)
  have a3: "fst (Token_is_expired env_401 Token_A world_A)"
    by (simp add: Token_is_expired_def time_time_def env_401_def env_ex_def Token_A_def
        world_A_def)
  have a4: "session_post env_401 (calls world_A) token_url (refresh_form env_401 Token_A)
      = Inr response_401"
    by (simp add: env_401_def)
  have a5: "status response_401 \<noteq> 200 \<or>
      (json_body response_401 = Some (JObj []) \<and> truthy (dict_get [] ''error''))"
    by (simp add: response_401_def)
  have b3: "fst (Token_is_expired env_invalid_grant Token_A world_A)"
    by (simp add: Token_is_expired_def time_time_def env_invalid_grant_def env_ex_def
        Token_A_def world_A_def)
  have b4: "session_post env_invalid_grant (calls world_A) token_url
      (refresh_form env_invalid_grant Token_A) = Inr response_invalid_grant"
    by (simp add: env_invalid_grant_def)
  have b5: "status response_invalid_grant \<noteq> 200 \<or>
      (json_body response_invalid_grant = Some (JObj body_invalid_grant) \<and>
       truthy (dict_get body_invalid_grant ''error''))"
    by (simp add: response_invalid_grant_def body_invalid_grant_def dict_get_def)
  from get_token_refresh_rejected [OF h1 new_Token_A a3 a4 a5]
    get_token_refresh_rejected [OF h1 new_Token_A b3 b4 b5]
  show ?thesis
    by (simp add: world_A_def response_401_def response_invalid_grant_def
        body_invalid_grant_def dict_get_def)
qed

section \<open>The claims about a session with no token\<close>

text \<open>
  C2, as the spec states it, fails: \<open>get_user\<close> and \<open>get_user_guilds\<close> look at the cached field
  first and ask for the token only when they fetch. A session with no \<open>token\<close> field that
  holds a profile and a guild list fetched 100 seconds ago gets both back.
\<close>

theorem no_token_cached_counterexample:
  "token (session world_cached) = None \<and>
   fst (get_user env_ex world_cached) = Inr (Some User_7) \<and>
   fst (get_user_guilds env_ex world_cached) = Inr (Some [(1, Guild_1), (2, Guild_2)])"
proof -
  have u: "user (session world_cached) = Some profile_7"
    and g: "guilds (session world_cached) = Some [guild_1, guild_2]"
    and t: "token (session world_cached) = None"
    by (simp_all add: world_cached_def session_cached_def)
  have "\<not> fst (User_is_expired env_ex User_7 world_cached)"
    by (simp add: User_is_expired_def time_time_def env_ex_def User_7_def world_cached_def)
  with u new_User_7 have "fst (get_user env_ex world_cached) = Inr (Some User_7)"
    by (simp add: get_user_fresh)
  moreover have "\<not> fst (any_is_expired env_ex (dict_values [(1::int, Guild_1), (2, Guild_2)])
      world_cached)"
    by (simp add: dict_values_def Guild_is_expired_def time_time_def env_ex_def Guild_1_def
        Guild_2_def world_cached_def)
  from get_user_guilds_fresh [OF g _ guilds_dict_12 this]
  have "fst (get_user_guilds env_ex world_cached) = Inr (Some [(1, Guild_1), (2, Guild_2)])"
    by simp
  ultimately show ?thesis using t by simp
qed

text \<open>
  C2, amended. In a session with no \<open>token\<close> field, \<open>get_user\<close> returns absent when the \<open>user\<close>
  field is absent, empty or expired, and returns the cached user when it has not expired;
  \<open>get_user_guilds\<close> returns absent when the \<open>guilds\<close> field is absent, empty or has an
  expired entry, and returns the cached mapping when none has expired.
\<close>

theorem no_token_get_user_get_user_guilds:
  assumes "token (session w) = None"
  shows "(user (session w) = None \<or> user (session w) = Some [] \<longrightarrow>
      fst (get_user E w) = Inr None) \<and>
    (\<forall>d u. user (session w) = Some d \<and> new_User d = Inr u \<longrightarrow>
      fst (get_user E w) = (if fst (User_is_expired E u w) then Inr None else Inr (Some u))) \<and>
    (guilds (session w) = None \<or> guilds (session w) = Some [] \<longrightarrow>
      fst (get_user_guilds E w) = Inr None) \<and>
    (\<forall>ds gs. guilds (session w) = Some ds \<and> ds \<noteq> [] \<and> guilds_dict ds [] = Inr gs \<longrightarrow>
      fst (get_user_guilds E w) =
        (if fst (any_is_expired E (dict_values gs) w) then Inr None else Inr (Some gs)))"
proof -
  have a: "fst (get_user E w) = Inr None"
    if "user (session w) = None \<or> user (session w) = Some []"
    using that assms by (simp add: get_user_uncached fetch_user_absent)
  have b: "fst (get_user E w) = (if fst (User_is_expired E u w) then Inr None else Inr (Some u))"
    if "user (session w) = Some d" and "new_User d = Inr u" for d u
  proof (cases "fst (User_is_expired E u w)")
    case True
    have "token (session (w\<lparr>ticks := Suc (ticks w)\<rparr>)) = None"
      using assms by simp
    then show ?thesis
      using True by (simp add: get_user_stale [OF that True] fetch_user_absent)
  next
    case False
    then show ?thesis by (simp add: get_user_fresh [OF that False])
  qed
  have c: "fst (get_user_guilds E w) = Inr None"
    if "guilds (session w) = None \<or> guilds (session w) = Some []"
    using that assms by (simp add: get_user_guilds_uncached fetch_user_guilds_absent)
  have d: "fst (get_user_guilds E w) =
      (if fst (any_is_expired E (dict_values gs) w) then Inr None else Inr (Some gs))"
    if "guilds (session w) = Some ds" and "ds \<noteq> []" and "guilds_dict ds [] = Inr gs" for ds gs
  proof (cases "fst (any_is_expired E (dict_values gs) w)")
    case True
    have "token (session (snd (any_is_expired E (dict_values gs) w))) = None"
      using assms by (simp add: any_is_expired_session)
    then show ?thesis
      using True by (simp add: get_user_guilds_stale [OF that True] fetch_user_guilds_absent)
  next
    case False
    then show ?thesis by (simp add: get_user_guilds_fresh [OF that False])
  qed
  from a b c d show ?thesis by blast
qed

theorem no_token_get_user_get_user_guilds_witness:
  "fst (get_user env_ex world_none) = Inr None \<and>
   fst (get_user_guilds env_ex world_none) = Inr None \<and>
   fst (get_user env_late world_cached) = Inr None \<and>
   fst (get_user_guilds env_late world_cached) = Inr None"
proof -
  have n: "token (session world_none) = None" "user (session world_none) = None"
    "guilds (session world_none) = None"
    by (simp_all add: world_none_def session_none_def)
  have u: "user (session world_cached) = Some profile_7"
    and g: "guilds (session world_cached) = Some [guild_1, guild_2]"
    and t: "token (session world_cached) = None"
    by (simp_all add: world_cached_def session_cached_def)
  have eu: "fst (User_is_expired env_late User_7 world_cached)"
    by (simp add: User_is_expired_def time_time_def env_late_def env_ex_def User_7_def
        world_cached_def)
  have eg: "fst (any_is_expired env_late (dict_values [(1::int, Guild_1), (2, Guild_2)])
      world_cached)"
    by (simp add: dict_values_def Guild_is_expired_def time_time_def env_late_def env_ex_def
        Guild_1_def world_cached_def)
  from no_token_get_user_get_user_guilds [OF n(1), of env_ex]
    no_token_get_user_get_user_guilds [OF t, of env_late]
    n u g new_User_7 guilds_dict_12 eu eg
  show ?thesis by simp
qed

text \<open>
  C5, as the spec states it, fails: \<open>get_user_guilds\<close> serves a cached guild list that has
  not expired without asking for the token. For a session with no \<open>token\<close> field that holds
  such a list, \<open>get_related_guilds\<close> asks the bot and returns the two lists.
\<close>

theorem no_token_related_guilds_counterexample:
  "token (session world_cached) = None \<and>
   fst (get_related_guilds env_ex world_cached 7 None) =
     Inr \<lparr>mutual_guilds = Some [guild_1], non_mutual_guilds = Some [guild_2], guild = None\<rparr> \<and>
   calls (snd (get_related_guilds env_ex world_cached 7 None)) =
     [IpcRequest ''mutual_guild_ids'' 7]"
proof -
  have h2: "[(1::int, Guild_1), (2, Guild_2)] \<noteq> []" by simp
  have h3: "ipc_request env_ex (calls (world_cached\<lparr>ticks := 2\<rparr>)) ''mutual_guild_ids'' 7
      = Inr (Some [1])"
    by (simp add: env_ex_def)
  have "relate [(1, Guild_1), (2, Guild_2)] (or_empty (Some [1])) None =
      \<lparr>mutual_guilds = Some [guild_1], non_mutual_guilds = Some [guild_2], guild = None\<rparr>"
    by (simp add: relate_def or_empty_def dict_values_def Guild_to_dict_def Guild_1_def
        Guild_2_def)
  with get_related_guilds_answered [OF get_user_guilds_world_cached h2 h3, of None]
  show ?thesis
    by (simp add: world_cached_def session_cached_def)
qed

text \<open>
  C5, amended. For a session with no \<open>token\<close> field whose \<open>guilds\<close> field is absent, empty or
  holds an expired entry, \<open>get_related_guilds\<close> returns the triple of three absent fields
  and makes no outbound call, so none to the bot.
\<close>

theorem no_token_no_related_guilds:
  assumes "token (session w) = None"
    and "guilds (session w) = None \<or> guilds (session w) = Some [] \<or>
      (\<exists>ds gs. guilds (session w) = Some ds \<and> guilds_dict ds [] = Inr gs \<and>
         fst (any_is_expired E (dict_values gs) w))"
  shows "fst (get_related_guilds E w uid gid) = Inr no_related_guilds \<and>
    calls (snd (get_related_guilds E w uid gid)) = calls w"
proof -
  have "\<exists>w0. get_user_guilds E w = (Inr None, w0) \<and> calls w0 = calls w"
  proof (cases "guilds (session w) = None \<or> guilds (session w) = Some []")
    case True
    then have "get_user_guilds E w = (Inr None, w)"
      using assms(1) by (simp add: get_user_guilds_uncached fetch_user_guilds_absent)
    then show ?thesis by simp
  next
    case False
    with assms(2) obtain ds gs where ds: "guilds (session w) = Some ds"
      and gs: "guilds_dict ds [] = Inr gs"
      and ex: "fst (any_is_expired E (dict_values gs) w)"
      by blast
    from False ds have ne: "ds \<noteq> []" by simp
    let ?w0 = "snd (any_is_expired E (dict_values gs) w)"
    have "token (session ?w0) = None"
      using assms(1) by (simp add: any_is_expired_session)
    then have "get_user_guilds E w = (Inr None, ?w0)"
      by (simp add: get_user_guilds_stale [OF ds ne gs ex] fetch_user_guilds_absent)
    then show ?thesis by (simp add: any_is_expired_calls)
  qed
  then obtain w0 where "get_user_guilds E w = (Inr None, w0)" and "calls w0 = calls w"
    by blast
  then show ?thesis by (simp add: get_related_guilds_def)
qed

theorem no_token_no_related_guilds_witness:
  "fst (get_related_guilds env_ex world_none 7 None) = Inr no_related_guilds \<and>
   calls (snd (get_related_guilds env_ex world_none 7 None)) = [] \<and>
   fst (get_related_guilds env_late world_cached 7 None) = Inr no_related_guilds \<and>
   calls (snd (get_related_guilds env_late world_cached 7 None)) = []"
proof -
  have n: "token (session world_none) = None"
    and n': "guilds (session world_none) = None \<or> guilds (session world_none) = Some [] \<or>
      (\<exists>ds gs. guilds (session world_none) = Some ds \<and> guilds_dict ds [] = Inr gs \<and>
         fst (any_is_expired env_ex (dict_values gs) world_none))"
    by (simp_all add: world_none_def session_none_def)
  have t: "token (session world_cached) = None"
    and g: "guilds (session world_cached) = Some [guild_1, guild_2]"
    by (simp_all add: world_cached_def session_cached_def)
  have eg: "fst (any_is_expired env_late (dict_values [(1::int, Guild_1), (2, Guild_2)])
      world_cached)"
    by (simp add: dict_values_def Guild_is_expired_def time_time_def env_late_def env_ex_def
        Guild_1_def world_cached_def)
  with g guilds_dict_12
  have t': "guilds (session world_cached) = None \<or> guilds (session world_cached) = Some [] \<or>
      (\<exists>ds gs. guilds (session world_cached) = Some ds \<and> guilds_dict ds [] = Inr gs \<and>
         fst (any_is_expired env_late (dict_values gs) world_cached))"
    by blast
  from no_token_no_related_guilds [OF n n', of 7 None]
    no_token_no_related_guilds [OF t t', of 7 None]
  show ?thesis
    by (simp add: world_none_def world_cached_def)
qed

section \<open>The claim about the guild list cache\<close>

text \<open>
  C9, as the spec states it, fails: the list is fetched only when \<open>get_token\<close> gives a
  token. A session with no \<open>token\<close> field holds two guilds fetched 1400 seconds ago, with a
  lifetime of 300 seconds: \<open>get_user_guilds\<close> returns absent, makes no request and leaves the
  \<open>guilds\<close> field as it was.
\<close>

theorem get_user_guilds_expired_no_token_counterexample:
  "guilds (session world_cached) = Some [guild_1, guild_2] \<and>
   guilds_dict [guild_1, guild_2] [] = Inr [(1, Guild_1), (2, Guild_2)] \<and>
   fst (any_is_expired env_late (dict_values [(1::int, Guild_1), (2, Guild_2)]) world_cached) \<and>
   fst (get_user_guilds env_late world_cached) = Inr None \<and>
   calls (snd (get_user_guilds env_late world_cached)) = [] \<and>
   guilds (session (snd (get_user_guilds env_late world_cached))) = Some [guild_1, guild_2]"
proof -
  let ?gs = "[(1::int, Guild_1), (2, Guild_2)]"
  have g: "guilds (session world_cached) = Some [guild_1, guild_2]"
    by (simp add: world_cached_def session_cached_def)
  have ne: "[guild_1, guild_2] \<noteq> []" by simp
  have stale: "any_is_expired env_late (dict_values ?gs) world_cached
      = (True, world_cached\<lparr>ticks := 1\<rparr>)"
    by (simp add: dict_values_def Guild_is_expired_def time_time_def env_late_def env_ex_def
        Guild_1_def world_cached_def)
  then have ex: "fst (any_is_expired env_late (dict_values ?gs) world_cached)"
    by (simp only: fst_conv)
  have "token (session (world_cached\<lparr>ticks := 1\<rparr>)) = None"
    by (simp add: world_cached_def session_cached_def)
  then have "fetch_user_guilds env_late (world_cached\<lparr>ticks := 1\<rparr>)
      = (Inr None, world_cached\<lparr>ticks := 1\<rparr>)"
    by (rule fetch_user_guilds_absent)
  with get_user_guilds_stale [OF g ne guilds_dict_12 ex]
  have "get_user_guilds env_late world_cached = (Inr None, world_cached\<lparr>ticks := 1\<rparr>)"
    by (simp only: stale snd_conv)
  then have "fst (get_user_guilds env_late world_cached) = Inr None"
    and "calls (snd (get_user_guilds env_late world_cached)) = []"
    and "guilds (session (snd (get_user_guilds env_late world_cached)))
      = Some [guild_1, guild_2]"
    by (simp_all add: world_cached_def session_cached_def)
  with g guilds_dict_12 ex show ?thesis by simp
qed

text \<open>
  C9, amended. With a cached guild list that is not empty: when no guild of the stored
  mapping has expired, \<open>get_user_guilds\<close> returns that mapping, keyed by the integer ids,
  with no outbound call and the session untouched. When one has expired, \<open>get_token\<close> gives
  a token and the identity endpoint answers, it makes one request for the whole list,
  stamps each entry of the answer with a reading of the clock taken then, overwrites the
  \<open>guilds\<close> field with the stamped list and returns the mapping of that list. When one has
  expired and the session has no \<open>token\<close> field, it returns absent, with no outbound call
  and the session untouched.
\<close>

theorem get_user_guilds_cached:
  assumes "guilds (session w) = Some ds" and "ds \<noteq> []" and "guilds_dict ds [] = Inr gs"
  shows "(\<not> fst (any_is_expired E (dict_values gs) w) \<longrightarrow>
      fst (get_user_guilds E w) = Inr (Some gs) \<and>
      map fst gs = map guild_id (dict_values gs) \<and>
      calls (snd (get_user_guilds E w)) = calls w \<and>
      session (snd (get_user_guilds E w)) = session w) \<and>
    (\<forall>t w1 fetched gs'.
      fst (any_is_expired E (dict_values gs) w) \<and>
      get_token E (snd (any_is_expired E (dict_values gs) w)) = (Inr (Some t), w1) \<and>
      http_users_me_guilds E (calls w1) (access_token t) = Inr fetched \<and>
      guilds_dict (fst (stamp_guilds E fetched w1)) [] = Inr gs' \<longrightarrow>
        fst (get_user_guilds E w) = Inr (Some gs') \<and>
        map fst gs' = map guild_id (dict_values gs') \<and>
        calls (snd (get_user_guilds E w)) =
          calls w1 @ [Request ''GET'' ''/users/@me/guilds'' (access_token t)] \<and>
        length (filter is_Request (calls (snd (get_user_guilds E w)))) =
          Suc (length (filter is_Request (calls w))) \<and>
        session (snd (get_user_guilds E w)) =
          (session w1)\<lparr>guilds := Some (fst (stamp_guilds E fetched w1))\<rparr> \<and>
        length (fst (stamp_guilds E fetched w1)) = length fetched \<and>
        (\<forall>i<length fetched.
           fst (stamp_guilds E fetched w1) ! i =
             AList.update ''fetched_at'' (JFloat (clock E (ticks w1 + i))) (fetched ! i))) \<and>
    (fst (any_is_expired E (dict_values gs) w) \<and> token (session w) = None \<longrightarrow>
      fst (get_user_guilds E w) = Inr None \<and>
      calls (snd (get_user_guilds E w)) = calls w \<and>
      session (snd (get_user_guilds E w)) = session w)"
proof (intro conjI impI allI)
  assume fresh: "\<not> fst (any_is_expired E (dict_values gs) w)"
  have eq: "get_user_guilds E w = (Inr (Some gs), snd (any_is_expired E (dict_values gs) w))"
    using assms fresh by (rule get_user_guilds_fresh)
  show "fst (get_user_guilds E w) = Inr (Some gs)"
    by (simp only: eq fst_conv)
  show "map fst gs = map guild_id (dict_values gs)"
    using assms(3) by (rule guilds_dict_keys)
  show "calls (snd (get_user_guilds E w)) = calls w"
    by (simp only: eq snd_conv any_is_expired_calls)
  show "session (snd (get_user_guilds E w)) = session w"
    by (simp only: eq snd_conv any_is_expired_session)
next
  fix t :: Token and w1 :: world and fetched :: "pydict list" and gs' :: "(int \<times> Guild) list"
  let ?w0 = "snd (any_is_expired E (dict_values gs) w)"
  let ?stamped = "fst (stamp_guilds E fetched w1)"
  let ?call = "Request ''GET'' ''/users/@me/guilds'' (access_token t)"
  assume h: "fst (any_is_expired E (dict_values gs) w) \<and>
      get_token E ?w0 = (Inr (Some t), w1) \<and>
      http_users_me_guilds E (calls w1) (access_token t) = Inr fetched \<and>
      guilds_dict ?stamped [] = Inr gs'"
  then have stale: "fst (any_is_expired E (dict_values gs) w)"
    and tok: "get_token E ?w0 = (Inr (Some t), w1)"
    and got: "http_users_me_guilds E (calls w1) (access_token t) = Inr fetched"
    and gs': "guilds_dict ?stamped [] = Inr gs'"
    by blast+
  have "get_user_guilds E w = fetch_user_guilds E ?w0"
    using assms stale by (rule get_user_guilds_stale)
  with fetch_user_guilds_fetched [OF tok got] gs'
  have eq: "get_user_guilds E w =
      (Inr (Some gs'),
       w1\<lparr>calls := calls w1 @ [?call], ticks := ticks w1 + length fetched,
          session := (session w1)\<lparr>guilds := Some ?stamped\<rparr>\<rparr>)"
    by simp
  show "fst (get_user_guilds E w) = Inr (Some gs')"
    by (simp only: eq fst_conv)
  show "map fst gs' = map guild_id (dict_values gs')"
    using gs' by (rule guilds_dict_keys)
  show "calls (snd (get_user_guilds E w)) = calls w1 @ [?call]"
    by (simp only: eq snd_conv) simp
  have "filter is_Request (calls w1) = filter is_Request (calls ?w0)"
    using get_token_no_other_calls [of E ?w0] by (simp only: tok snd_conv)
  then have "filter is_Request (calls w1) = filter is_Request (calls w)"
    by (simp only: any_is_expired_calls)
  then show "length (filter is_Request (calls (snd (get_user_guilds E w)))) =
      Suc (length (filter is_Request (calls w)))"
    by (simp only: eq snd_conv) simp
  show "session (snd (get_user_guilds E w)) = (session w1)\<lparr>guilds := Some ?stamped\<rparr>"
    by (simp only: eq snd_conv) simp
  show "length ?stamped = length fetched"
    by (rule stamp_guilds_length)
  show "?stamped ! i = AList.update ''fetched_at'' (JFloat (clock E (ticks w1 + i))) (fetched ! i)"
    if "i < length fetched" for i
    using that by (rule stamp_guilds_nth)
next
  let ?w0 = "snd (any_is_expired E (dict_values gs) w)"
  assume h: "fst (any_is_expired E (dict_values gs) w) \<and> token (session w) = None"
  then have "token (session ?w0) = None"
    by (simp add: any_is_expired_session)
  then have "fetch_user_guilds E ?w0 = (Inr None, ?w0)"
    by (rule fetch_user_guilds_absent)
  moreover have "get_user_guilds E w = fetch_user_guilds E ?w0"
    using assms h by (simp add: get_user_guilds_stale)
  ultimately have eq: "get_user_guilds E w = (Inr None, ?w0)"
    by simp
  show "fst (get_user_guilds E w) = Inr None"
    by (simp only: eq fst_conv)
  show "calls (snd (get_user_guilds E w)) = calls w"
    by (simp only: eq snd_conv any_is_expired_calls)
  show "session (snd (get_user_guilds E w)) = session w"
    by (simp only: eq snd_conv any_is_expired_session)
qed

theorem get_user_guilds_cached_witness:
  "fst (get_user_guilds env_ex world_in) = Inr (Some [(1, Guild_1), (2, Guild_2)]) \<and>
   calls (snd (get_user_guilds env_ex world_in)) = [] \<and>
   session (snd (get_user_guilds env_ex world_in)) = session_in \<and>
   fst (get_user_guilds env_late world_in) = Inr (Some [(1, Guild_1_again), (2, Guild_2_again)]) \<and>
   calls (snd (get_user_guilds env_late world_in)) =
     [Request ''GET'' ''/users/@me/guilds'' ''B''] \<and>
   session (snd (get_user_guilds env_late world_in)) =
     session_in\<lparr>guilds := Some [guild_1_again, guild_2_again]\<rparr> \<and>
   fst (get_user_guilds env_late world_cached) = Inr None \<and>
   calls (snd (get_user_guilds env_late world_cached)) = [] \<and>
   session (snd (get_user_guilds env_late world_cached)) = session_cached"
proof -
  let ?gs = "[(1::int, Guild_1), (2, Guild_2)]"
  have g': "guilds (session world_cached) = Some [guild_1, guild_2]"
    and n': "token (session world_cached) = None"
    by (simp_all add: world_cached_def session_cached_def)
  have stale': "fst (any_is_expired env_late (dict_values ?gs) world_cached)"
    by (simp add: dict_values_def Guild_is_expired_def time_time_def env_late_def env_ex_def
        Guild_1_def world_cached_def)
  have g: "guilds (session world_in) = Some [guild_1, guild_2]"
    and ne: "[guild_1, guild_2] \<noteq> []"
    by (simp_all add: world_in_def session_in_def)
  have fresh: "\<not> fst (any_is_expired env_ex (dict_values ?gs) world_in)"
    by (simp add: dict_values_def Guild_is_expired_def time_time_def env_ex_def Guild_1_def
        Guild_2_def world_in_def)
  have stale: "any_is_expired env_late (dict_values ?gs) world_in = (True, world_in\<lparr>ticks := 1\<rparr>)"
    by (simp add: dict_values_def Guild_is_expired_def time_time_def env_late_def env_ex_def
        Guild_1_def world_in_def)
  have t: "token (session (world_in\<lparr>ticks := 1\<rparr>)) = Some token_B"
    by (simp add: world_in_def session_in_def)
  have "\<not> fst (Token_is_expired env_late Token_B (world_in\<lparr>ticks := 1\<rparr>))"
    by (simp add: Token_is_expired_def time_time_def env_late_def env_ex_def Token_B_def
        world_in_def)
  from get_token_fresh [OF t new_Token_B this]
  have tok: "get_token env_late (world_in\<lparr>ticks := 1\<rparr>)
      = (Inr (Some Token_B), world_in\<lparr>ticks := 2\<rparr>)"
    by simp
  have got: "http_users_me_guilds env_late (calls (world_in\<lparr>ticks := 2\<rparr>)) (access_token Token_B)
      = Inr [guild_1, guild_2]"
    by (simp add: env_late_def env_ex_def)
  have st: "fst (stamp_guilds env_late [guild_1, guild_2] (world_in\<lparr>ticks := 2\<rparr>))
      = [guild_1_again, guild_2_again]"
    by (simp add: time_time_def env_late_def env_ex_def guild_1_def guild_2_def
        guild_1_again_def guild_2_again_def)
  have ids: "getitem guild_1_again ''id'' = Inr (JStr ''1'')"
    "getitem guild_2_again ''id'' = Inr (JStr ''2'')"
    by (simp_all add: getitem_def guild_1_again_def guild_2_again_def)
  have "new_Guild guild_1_again = Inr Guild_1_again" "new_Guild guild_2_again = Inr Guild_2_again"
    by (simp_all add: new_Guild_def get_number_def getitem_def guild_1_again_def
        guild_2_again_def Guild_1_again_def Guild_2_again_def int_of_str_1 int_of_str_2)
  with ids have gd: "guilds_dict [guild_1_again, guild_2_again] []
      = Inr [(1, Guild_1_again), (2, Guild_2_again)]"
    by (simp add: int_of_str_1 int_of_str_2)
  from get_user_guilds_cached [OF g ne guilds_dict_12, of env_ex] fresh
  have a: "fst (get_user_guilds env_ex world_in) = Inr (Some ?gs) \<and>
      calls (snd (get_user_guilds env_ex world_in)) = [] \<and>
      session (snd (get_user_guilds env_ex world_in)) = session_in"
    by (simp add: world_in_def)
  from get_user_guilds_cached [OF g ne guilds_dict_12, of env_late] stale tok got st gd
  have b: "fst (get_user_guilds env_late world_in) = Inr (Some [(1, Guild_1_again), (2, Guild_2_again)]) \<and>
      calls (snd (get_user_guilds env_late world_in)) =
        [Request ''GET'' ''/users/@me/guilds'' ''B''] \<and>
      session (snd (get_user_guilds env_late world_in)) =
        session_in\<lparr>guilds := Some [guild_1_again, guild_2_again]\<rparr>"
    by (simp add: world_in_def Token_B_def)
  from get_user_guilds_cached [OF g' ne guilds_dict_12, of env_late] stale' n'
  have c: "fst (get_user_guilds env_late world_cached) = Inr None \<and>
      calls (snd (get_user_guilds env_late world_cached)) = [] \<and>
      session (snd (get_user_guilds env_late world_cached)) = session_cached"
    by (simp add: world_cached_def)
  from a b c show ?thesis by simp
qed

section \<open>The claims about \<open>get_related_guilds\<close>\<close>

text \<open>
  C6. Whatever guild mapping \<open>get_user_guilds\<close> gives and whatever list of ids the bot
  answers, the two lists of the result are the summaries of the guilds whose id is in the
  answer and of those whose id is not, each in the order of the mapping: together they are
  all the guilds of the mapping, and no summary is in both.
\<close>

theorem related_guilds_partition:
  assumes "get_user_guilds E w = (Inr (Some gs), w1)" and "gs \<noteq> []"
    and "ipc_request E (calls w1) ''mutual_guild_ids'' uid = Inr (Some M)"
  shows "\<exists>r mg ng.
    fst (get_related_guilds E w uid gid) = Inr r \<and>
    mutual_guilds r = Some mg \<and> non_mutual_guilds r = Some ng \<and>
    set mg \<union> set ng = set (map Guild_to_dict (dict_values gs)) \<and>
    set mg \<inter> set ng = {} \<and>
    mg = map Guild_to_dict (filter (\<lambda>g. guild_id g \<in> set M) (dict_values gs)) \<and>
    ng = map Guild_to_dict (filter (\<lambda>g. guild_id g \<notin> set M) (dict_values gs)) \<and>
    subseq mg (map Guild_to_dict (dict_values gs)) \<and>
    subseq ng (map Guild_to_dict (dict_values gs))"
proof -
  let ?vs = "dict_values gs"
  let ?mg = "map Guild_to_dict (filter (\<lambda>g. guild_id g \<in> set M) ?vs)"
  let ?ng = "map Guild_to_dict (filter (\<lambda>g. guild_id g \<notin> set M) ?vs)"
  let ?r = "relate gs M gid"
  have res: "fst (get_related_guilds E w uid gid) = Inr ?r"
    using get_related_guilds_answered [OF assms] by (simp add: or_empty_Some)
  have union: "set ?mg \<union> set ?ng = set (map Guild_to_dict ?vs)"
    by auto
  have inj: "inj_on Guild_to_dict (set ?vs)"
    using assms(1) by (rule get_user_guilds_inj)
  have disjoint: "set ?mg \<inter> set ?ng = {}"
  proof (rule ccontr)
    assume "set ?mg \<inter> set ?ng \<noteq> {}"
    then obtain d where "d \<in> set ?mg" and "d \<in> set ?ng" by blast
    then obtain g h where g: "g \<in> set ?vs" "guild_id g \<in> set M" "d = Guild_to_dict g"
      and h: "h \<in> set ?vs" "guild_id h \<notin> set M" "d = Guild_to_dict h"
      by auto
    from inj g(1) h(1) g(3) h(3) have "g = h" by (auto dest: inj_onD)
    with g(2) h(2) show False by simp
  qed
  have order: "subseq ?mg (map Guild_to_dict ?vs)" "subseq ?ng (map Guild_to_dict ?vs)"
    by (simp_all add: subseq_map)
  from res relate_mutual [of gs M gid] relate_non_mutual [of gs M gid] union disjoint order
  show ?thesis by blast
qed

theorem related_guilds_partition_witness:
  "\<exists>r mg ng.
    fst (get_related_guilds env_ex world_in 7 None) = Inr r \<and>
    mutual_guilds r = Some mg \<and> non_mutual_guilds r = Some ng \<and>
    set mg \<union> set ng = {guild_1, guild_2} \<and>
    set mg \<inter> set ng = {} \<and>
    mg = [guild_1] \<and> ng = [guild_2]"
proof -
  have h1: "get_user_guilds env_ex world_in
      = (Inr (Some [(1, Guild_1), (2, Guild_2)]), world_in\<lparr>ticks := 2\<rparr>)"
    by (simp add: get_user_guilds_world_in)
  have h2: "[(1::int, Guild_1), (2, Guild_2)] \<noteq> []" by simp
  have h3: "ipc_request env_ex (calls (world_in\<lparr>ticks := 2\<rparr>)) ''mutual_guild_ids'' 7
      = Inr (Some [1])"
    by (simp add: env_ex_def)
  from related_guilds_partition [OF h1 h2 h3, of None]
  show ?thesis
    by (auto simp add: dict_values_def Guild_to_dict_def Guild_1_def Guild_2_def)
qed

text \<open>
  C7. The requested guild is looked for among the mutual guilds only: the \<open>guild\<close> field is
  absent when the requested id is not in the answer of the bot, also when the user's
  mapping has a guild with that id; when the field is set, it is the summary of a guild of
  the mapping that has the requested id, and the id is in the answer.
\<close>

theorem related_guild_only_mutual:
  assumes "get_user_guilds E w = (Inr (Some gs), w1)" and "gs \<noteq> []"
    and "ipc_request E (calls w1) ''mutual_guild_ids'' uid = Inr answer"
  shows "\<exists>r.
    fst (get_related_guilds E w uid (Some i)) = Inr r \<and>
    (i \<notin> set (or_empty answer) \<longrightarrow> guild r = None) \<and>
    (\<forall>d. guild r = Some d \<longrightarrow>
       (\<exists>g \<in> set (dict_values gs).
          guild_id g = i \<and> i \<in> set (or_empty answer) \<and> d = Guild_to_dict g))"
proof -
  let ?M = "or_empty answer"
  let ?mutual = "filter (\<lambda>g. guild_id g \<in> set ?M) (dict_values gs)"
  let ?r = "relate gs ?M (Some i)"
  have res: "fst (get_related_guilds E w uid (Some i)) = Inr ?r"
    using get_related_guilds_answered [OF assms] by simp
  have found: "\<exists>g \<in> set (dict_values gs). guild_id g = i \<and> i \<in> set ?M \<and> d = Guild_to_dict g"
    if "guild ?r = Some d" for d
  proof -
    from that obtain g where "find (\<lambda>g. guild_id g = i) ?mutual = Some g"
      and d: "d = Guild_to_dict g"
      by (auto simp add: relate_guild split: if_splits)
    then have "g \<in> set ?mutual" and "guild_id g = i"
      by (auto dest: find_Some_member)
    with d show ?thesis by auto
  qed
  have "guild ?r = None" if "i \<notin> set ?M"
  proof (cases "guild ?r")
    case None
    then show ?thesis .
  next
    case (Some d)
    from found [OF this] that show ?thesis by blast
  qed
  with res found show ?thesis by blast
qed

theorem related_guild_only_mutual_witness:
  "(\<exists>r. fst (get_related_guilds env_ex world_in 7 (Some 2)) = Inr r \<and> guild r = None) \<and>
   2 \<in> fst ` set [(1::int, Guild_1), (2, Guild_2)] \<and>
   (\<exists>r. fst (get_related_guilds env_ex world_in 7 (Some 1)) = Inr r \<and> guild r = Some guild_1)"
proof -
  have h1: "get_user_guilds env_ex world_in
      = (Inr (Some [(1, Guild_1), (2, Guild_2)]), world_in\<lparr>ticks := 2\<rparr>)"
    by (simp add: get_user_guilds_world_in)
  have h2: "[(1::int, Guild_1), (2, Guild_2)] \<noteq> []" by simp
  have h3: "ipc_request env_ex (calls (world_in\<lparr>ticks := 2\<rparr>)) ''mutual_guild_ids'' 7
      = Inr (Some [1])"
    by (simp add: env_ex_def)
  from related_guild_only_mutual [OF h1 h2 h3, of 2]
  have a: "\<exists>r. fst (get_related_guilds env_ex world_in 7 (Some 2)) = Inr r \<and> guild r = None"
    by (auto simp add: or_empty_def)
  have "fst (get_related_guilds env_ex world_in 7 (Some 1))
      = Inr (relate [(1, Guild_1), (2, Guild_2)] (or_empty (Some [1])) (Some 1))"
    using get_related_guilds_answered [OF h1 h2 h3] by simp
  moreover have "guild (relate [(1, Guild_1), (2, Guild_2)] (or_empty (Some [1])) (Some 1))
      = Some guild_1"
    by (simp add: relate_guild or_empty_def dict_values_def Guild_to_dict_def Guild_1_def
        Guild_2_def)
  ultimately have b: "\<exists>r. fst (get_related_guilds env_ex world_in 7 (Some 1)) = Inr r \<and>
      guild r = Some guild_1"
    by simp
  from a b show ?thesis by simp
qed

text \<open>
  C8. When the session gives a guild mapping that is not empty and the bot gives no answer
  to \<open>mutual_guild_ids\<close>, \<open>get_related_guilds\<close> raises nothing: \<open>mutual_guilds\<close> is the empty
  list and \<open>non_mutual_guilds\<close> holds every guild of the mapping.
\<close>

theorem related_guilds_no_answer:
  assumes "get_user_guilds E w = (Inr (Some gs), w1)" and "gs \<noteq> []"
    and "ipc_request E (calls w1) ''mutual_guild_ids'' uid = Inr None"
  shows "\<exists>r.
    fst (get_related_guilds E w uid gid) = Inr r \<and>
    mutual_guilds r = Some [] \<and>
    non_mutual_guilds r = Some (map Guild_to_dict (dict_values gs))"
proof -
  have "fst (get_related_guilds E w uid gid) = Inr (relate gs [] gid)"
    using get_related_guilds_answered [OF assms] by (simp add: or_empty_None)
  moreover have "mutual_guilds (relate gs [] gid) = Some []"
    by (simp add: relate_mutual)
  moreover have "non_mutual_guilds (relate gs [] gid) = Some (map Guild_to_dict (dict_values gs))"
    by (simp add: relate_non_mutual)
  ultimately show ?thesis by blast
qed

theorem related_guilds_no_answer_witness:
  "\<exists>r. fst (get_related_guilds env_silent world_in 7 None) = Inr r \<and>
     mutual_guilds r = Some [] \<and> non_mutual_guilds r = Some [guild_1, guild_2]"
proof -
  have h1: "get_user_guilds env_silent world_in
      = (Inr (Some [(1, Guild_1), (2, Guild_2)]), world_in\<lparr>ticks := 2\<rparr>)"
    by (simp add: get_user_guilds_world_in env_silent_def)
  have h2: "[(1::int, Guild_1), (2, Guild_2)] \<noteq> []" by simp
  have h3: "ipc_request env_silent (calls (world_in\<lparr>ticks := 2\<rparr>)) ''mutual_guild_ids'' 7
      = Inr None"
    by (simp add: env_silent_def)
  from related_guilds_no_answer [OF h1 h2 h3, of None]
  show ?thesis
    by (simp add: dict_values_def Guild_to_dict_def Guild_1_def Guild_2_def)
qed

text \<open>
  C10. When the guild list is not served from the cache, the token is there and the
  identity endpoint answers with the empty list, \<open>get_related_guilds\<close> returns the triple
  of three absent fields, as it does for a session that is not logged in, and makes no
  call to the bot: the guild request is the last call. The session then holds the empty
  list, and the next \<open>get_user_guilds\<close> fetches again.
\<close>

theorem related_guilds_of_no_guilds:
  assumes "guilds (session w) = None \<and> w0 = w \<or>
      guilds (session w) = Some [] \<and> w0 = w \<or>
      (\<exists>ds gs. guilds (session w) = Some ds \<and> ds \<noteq> [] \<and> guilds_dict ds [] = Inr gs \<and>
         fst (any_is_expired E (dict_values gs) w) \<and>
         w0 = snd (any_is_expired E (dict_values gs) w))"
    and "get_token E w0 = (Inr (Some t), w1)"
    and "http_users_me_guilds E (calls w1) (access_token t) = Inr []"
  shows "fst (get_related_guilds E w uid gid) = Inr no_related_guilds \<and>
    calls (snd (get_related_guilds E w uid gid)) =
      calls w1 @ [Request ''GET'' ''/users/@me/guilds'' (access_token t)] \<and>
    filter is_IpcRequest (calls (snd (get_related_guilds E w uid gid))) =
      filter is_IpcRequest (calls w) \<and>
    guilds (session (snd (get_related_guilds E w uid gid))) = Some [] \<and>
    get_user_guilds E (snd (get_related_guilds E w uid gid)) =
      fetch_user_guilds E (snd (get_related_guilds E w uid gid))"
proof -
  let ?w' = "w1\<lparr>calls := calls w1 @ [Request ''GET'' ''/users/@me/guilds'' (access_token t)],
      ticks := ticks w1 + length ([] :: pydict list),
      session := (session w1)\<lparr>guilds := Some (fst (stamp_guilds E [] w1))\<rparr>\<rparr>"
  have miss: "get_user_guilds E w = fetch_user_guilds E w0"
    using assms(1) get_user_guilds_uncached [of w E] get_user_guilds_stale [of w _ _ E]
    by auto
  have "fetch_user_guilds E w0 = (Inr (Some []), ?w')"
    using fetch_user_guilds_fetched [OF assms(2,3)] by simp
  with miss have gug: "get_user_guilds E w = (Inr (Some []), ?w')"
    by simp
  then have res: "get_related_guilds E w uid gid = (Inr no_related_guilds, ?w')"
    by (simp add: get_related_guilds_def)
  have ipc: "filter is_IpcRequest (calls ?w') = filter is_IpcRequest (calls w)"
    using get_user_guilds_no_ipc [of E w] by (simp only: gug snd_conv)
  have again: "get_user_guilds E ?w' = fetch_user_guilds E ?w'"
    by (rule get_user_guilds_uncached) simp
  from ipc again show ?thesis
    by (simp only: res fst_conv snd_conv) simp
qed

theorem related_guilds_of_no_guilds_witness:
  "fst (get_related_guilds env_lonely world_B 7 None) = Inr no_related_guilds \<and>
   calls (snd (get_related_guilds env_lonely world_B 7 None)) =
     [Request ''GET'' ''/users/@me/guilds'' ''B''] \<and>
   guilds (session (snd (get_related_guilds env_lonely world_B 7 None))) = Some []"
proof -
  have h1: "guilds (session world_B) = None \<and> world_B = world_B \<or>
      guilds (session world_B) = Some [] \<and> world_B = world_B \<or>
      (\<exists>ds gs. guilds (session world_B) = Some ds \<and> ds \<noteq> [] \<and> guilds_dict ds [] = Inr gs \<and>
         fst (any_is_expired env_lonely (dict_values gs) world_B) \<and>
         world_B = snd (any_is_expired env_lonely (dict_values gs) world_B))"
    by (simp add: world_B_def session_B_def)
  have t: "token (session world_B) = Some token_B"
    by (simp add: world_B_def session_B_def)
  have "\<not> fst (Token_is_expired env_lonely Token_B world_B)"
    by (simp add: Token_is_expired_def time_time_def env_lonely_def env_ex_def Token_B_def
        world_B_def)
  from get_token_fresh [OF t new_Token_B this]
  have h2: "get_token env_lonely world_B
      = (Inr (Some Token_B), world_B\<lparr>ticks := Suc (ticks world_B)\<rparr>)" .
  have h3: "http_users_me_guilds env_lonely (calls (world_B\<lparr>ticks := Suc (ticks world_B)\<rparr>))
      (access_token Token_B) = Inr []"
    by (simp add: env_lonely_def)
  from related_guilds_of_no_guilds [OF h1 h2 h3, of 7 None]
  show ?thesis
    by (simp add: world_B_def Token_B_def)
qed

end
